theory Spec2Isabelle
  imports Complex_Main
begin

section \<open>Isobenefit urban growth: the land map engine\<close>

text \<open>
  A shallow embedding of \<^verbatim>\<open>src/isobenefit/land_map.py\<close>.

  Conventions of the embedding.
  \<^item> A two-dimensional numpy array is a function from index pairs \<open>(row, column)\<close> to
    values, read together with its shape \<open>(rows, columns)\<close>. Every array of one engine is
    created from \<^verbatim>\<open>extents_arr.shape\<close>, so the shape is passed once.
  \<^item> Python integers are \<open>int\<close>; array indices, which the code only takes from
    \<^verbatim>\<open>np.ndindex\<close> or from the bounds-checked neighbour enumeration, are \<open>nat\<close>.
  \<^item> Floating point values are read as the real numbers they denote: comparisons are
    exact, and the rounding of \<^verbatim>\<open>+=\<close>, \<^verbatim>\<open>/\<close> and \<^verbatim>\<open>np.hypot\<close> is not modelled. The
    surfaces are single-precision arrays, so over several calls the program's values can
    differ from the exact ones in the last bits (for a third, say), and an exact test
    \<^verbatim>\<open>== 0\<close> can then come out differently. The statements about one call hold of the
    values the call is given. Every worked example that evaluates a surface has 100 m
    cells and a walking radius of 200 m or 400 m, where every contribution is a binary
    fraction and the single-precision arithmetic is exact; the examples of a growth step
    also take binary fractions for the probabilities and the density factors.
  \<^item> A raised exception is a value of type \<open>error\<close> on the left of a sum.
  \<^item> A pseudo-random generator is the stream of numbers it is going to return.
\<close>

subsection \<open>Errors\<close>

datatype error = ValueError string | IndexError | ZeroDivisionError | TypeError

text \<open>The message of the only \<^verbatim>\<open>raise\<close> statement of the module.\<close>

definition ConfigurationError :: error where
  "ConfigurationError = ValueError ''Please decrease min_green_km2 in relation to extents.''"

subsection \<open>Random numbers\<close>

type_synonym stream = "nat \<Rightarrow> real"

text \<open>\<^verbatim>\<open>np.random.rand()\<close>: return the next number of the generator and advance it.\<close>

definition rand :: "stream \<Rightarrow> real \<times> stream" where
  "rand s = (s 0, \<lambda>n. s (Suc n))"

subsection \<open>Density assignment\<close>

text \<open>
  \<^verbatim>\<open>
  def _random_density(prob_distribution, density_factors):
      p = np.random.rand()
      if p >= 0 and p < prob_distribution[0]:
          return density_factors[0]
      elif p >= prob_distribution[1] and p < prob_distribution[2]:
          return density_factors[1]
      else:
          return density_factors[2]
  \<close>
\<close>

definition random_density ::
  "real \<times> real \<times> real \<Rightarrow> real \<times> real \<times> real \<Rightarrow> stream \<Rightarrow> real \<times> stream" where
  "random_density prob_distribution density_factors s =
     (let (p, s') = rand s in
      if p \<ge> 0 \<and> p < fst prob_distribution then (fst density_factors, s')
      else if p \<ge> fst (snd prob_distribution) \<and> p < snd (snd prob_distribution)
        then (fst (snd density_factors), s')
      else (snd (snd density_factors), s'))"


subsection \<open>Sequencing of fallible steps\<close>

definition bind :: "error + 'a \<Rightarrow> ('a \<Rightarrow> error + 'b) \<Rightarrow> error + 'b" where
  "bind m f = (case m of Inl e \<Rightarrow> Inl e | Inr v \<Rightarrow> f v)"

text \<open>
  True division \<^verbatim>\<open>a / b\<close>. In functions compiled by \<^verbatim>\<open>@njit\<close> with its default error
  model a zero divisor raises \<^verbatim>\<open>ZeroDivisionError\<close>, as it does in plain Python.
\<close>

definition truediv :: "real \<Rightarrow> real \<Rightarrow> error + real" where
  "truediv a b = (if b = 0 then Inl ZeroDivisionError else Inr (a / b))"

subsection \<open>Span validation\<close>

text \<open>
  \<^verbatim>\<open>
  def green_ray(arr_1d, start_idx, positive):
      if positive:
          idxs = list(range(start_idx + 1, len(arr_1d)))
      else:
          idxs = list(range(start_idx - 1, -1, -1))
      ray = 0
      for ray_idx in idxs:
          if ray_idx == len(arr_1d):
              break
          if arr_1d[ray_idx] != 0:
              break
          ray += 1
      return ray
  \<close>
\<close>

fun green_ray_loop :: "int list \<Rightarrow> nat list \<Rightarrow> nat \<Rightarrow> nat" where
  "green_ray_loop arr_1d [] ray = ray"
| "green_ray_loop arr_1d (ray_idx # idxs) ray =
     (if ray_idx = length arr_1d then ray
      else if arr_1d ! ray_idx \<noteq> 0 then ray
      else green_ray_loop arr_1d idxs (ray + 1))"

definition green_ray :: "int list \<Rightarrow> nat \<Rightarrow> bool \<Rightarrow> nat" where
  "green_ray arr_1d start_idx positive =
     (let idxs = (if positive then [start_idx + 1 ..< length arr_1d]
                  else rev [0 ..< start_idx])
      in green_ray_loop arr_1d idxs 0)"

text \<open>The slices \<^verbatim>\<open>arr[y_idx, :]\<close> and \<^verbatim>\<open>arr[:, x_idx]\<close>.\<close>

definition row_of :: "nat \<times> nat \<Rightarrow> (nat \<times> nat \<Rightarrow> 'a) \<Rightarrow> nat \<Rightarrow> 'a list" where
  "row_of shape arr y_idx = map (\<lambda>x. arr (y_idx, x)) [0 ..< snd shape]"

definition col_of :: "nat \<times> nat \<Rightarrow> (nat \<times> nat \<Rightarrow> 'a) \<Rightarrow> nat \<Rightarrow> 'a list" where
  "col_of shape arr x_idx = map (\<lambda>y. arr (y, x_idx)) [0 ..< fst shape]"

text \<open>
  \<^verbatim>\<open>
  def green_rays(arr, y_idx, x_idx, granularity_m, min_long_green_span_m, min_short_green_span_m):
      x_ray_l = green_ray(arr[y_idx, :], x_idx, positive=False)
      x_ray_r = green_ray(arr[y_idx, :], x_idx, positive=True)
      x_rays = sorted([x_ray_l, x_ray_r])
      y_ray_l = green_ray(arr[:, x_idx], y_idx, positive=False)
      y_ray_r = green_ray(arr[:, x_idx], y_idx, positive=True)
      y_rays = sorted([y_ray_l, y_ray_r])
      xy_max = sorted([x_rays[-1], y_rays[-1]])
      if sum(x_rays) != 0:
          if x_rays[0] != 0:
              if x_rays[0] < min_short_green_span_m / granularity_m:
                  return False
      if sum(y_rays) != 0:
          if y_rays[0] != 0:
              if y_rays[0] < min_short_green_span_m / granularity_m:
                  return False
      if xy_max[-1] < min_long_green_span_m / granularity_m:
          return False
      if xy_max[0] < min_short_green_span_m / granularity_m:
          return False
      return True
  \<close>
\<close>

definition green_rays ::
  "nat \<times> nat \<Rightarrow> (nat \<times> nat \<Rightarrow> int) \<Rightarrow> nat \<Rightarrow> nat \<Rightarrow> int \<Rightarrow> int \<Rightarrow> int \<Rightarrow> error + bool" where
  "green_rays shape arr y_idx x_idx granularity_m min_long_green_span_m min_short_green_span_m =
     (let x_ray_l = green_ray (row_of shape arr y_idx) x_idx False;
          x_ray_r = green_ray (row_of shape arr y_idx) x_idx True;
          x_rays = sort [x_ray_l, x_ray_r];
          y_ray_l = green_ray (col_of shape arr x_idx) y_idx False;
          y_ray_r = green_ray (col_of shape arr x_idx) y_idx True;
          y_rays = sort [y_ray_l, y_ray_r];
          xy_max = sort [last x_rays, last y_rays]
      in
      bind (if sum_list x_rays \<noteq> 0 \<and> x_rays ! 0 \<noteq> 0
            then bind (truediv (real_of_int min_short_green_span_m) (real_of_int granularity_m))
                   (\<lambda>q. Inr (real (x_rays ! 0) < q))
            else Inr False) (\<lambda>x_short.
      if x_short then Inr False else
      bind (if sum_list y_rays \<noteq> 0 \<and> y_rays ! 0 \<noteq> 0
            then bind (truediv (real_of_int min_short_green_span_m) (real_of_int granularity_m))
                   (\<lambda>q. Inr (real (y_rays ! 0) < q))
            else Inr False) (\<lambda>y_short.
      if y_short then Inr False else
      bind (truediv (real_of_int min_long_green_span_m) (real_of_int granularity_m)) (\<lambda>q_long.
      if real (last xy_max) < q_long then Inr False else
      bind (truediv (real_of_int min_short_green_span_m) (real_of_int granularity_m)) (\<lambda>q_short.
      if real (xy_max ! 0) < q_short then Inr False else
      Inr True)))))"



subsection \<open>Neighbourhood analysis\<close>

text \<open>
  \<^verbatim>\<open>
  def _iter_nbs(arr, y_idx, x_idx, rook):
      idxs = []
      if rook:
          y_offsets = [1, 0, -1, 0]
          x_offsets = [0, 1, 0, -1]
      else:
          y_offsets = [1, 1, 1, 0, -1, -1, -1, 0]
          x_offsets = [-1, 0, 1, 1, 1, 0, -1, -1]
      for y_offset, x_offset in zip(y_offsets, x_offsets):
          y_nb_idx = y_idx + y_offset
          if y_nb_idx < 0 or y_nb_idx >= arr.shape[0]:
              continue
          x_nb_idx = x_idx + x_offset
          if x_nb_idx < 0 or x_nb_idx >= arr.shape[1]:
              continue
          idxs.append((y_nb_idx, x_nb_idx))
      return idxs
  \<close>
\<close>

fun iter_nbs_loop :: "nat \<times> nat \<Rightarrow> nat \<Rightarrow> nat \<Rightarrow> (int \<times> int) list \<Rightarrow> (nat \<times> nat) list" where
  "iter_nbs_loop shape y_idx x_idx [] = []"
| "iter_nbs_loop shape y_idx x_idx ((y_offset, x_offset) # offsets) =
     (let y_nb_idx = int y_idx + y_offset in
      if y_nb_idx < 0 \<or> y_nb_idx \<ge> int (fst shape) then iter_nbs_loop shape y_idx x_idx offsets
      else
        let x_nb_idx = int x_idx + x_offset in
        if x_nb_idx < 0 \<or> x_nb_idx \<ge> int (snd shape) then iter_nbs_loop shape y_idx x_idx offsets
        else (nat y_nb_idx, nat x_nb_idx) # iter_nbs_loop shape y_idx x_idx offsets)"

definition iter_nbs :: "nat \<times> nat \<Rightarrow> nat \<Rightarrow> nat \<Rightarrow> bool \<Rightarrow> (nat \<times> nat) list" where
  "iter_nbs shape y_idx x_idx rook =
     (let y_offsets = (if rook then [1, 0, -1, 0] else [1, 1, 1, 0, -1, -1, -1, 0]);
          x_offsets = (if rook then [0, 1, 0, -1] else [-1, 0, 1, 1, 1, 0, -1, -1])
      in iter_nbs_loop shape y_idx x_idx (zip y_offsets x_offsets))"

text \<open>
  \<^verbatim>\<open>
  def _count_cont_nbs(state_arr, y_idx, x_idx, target_vals):
      circle = []
      for x_nb_idx, y_nb_idx in _iter_nbs(state_arr, y_idx, x_idx, rook=False):
          if state_arr[x_nb_idx, y_nb_idx] in target_vals:
              circle.append(1)
          else:
              circle.append(0)
      adds = []
      run = 0
      for c in circle:
          if c == 1:
              run += 1
          elif run > 0:
              adds.append(run)
              run = 0
      if run > 0:
          adds.append(run)
      if len(adds) > 1 and len(circle) == 8 and circle[0] == 1 and circle[-1] == 1:
          adds[0] += adds[-1]
          adds = adds[:-1]
      if not adds:
          return 0, 0
      return max(adds), len(adds)
  \<close>
  The neighbour pairs are unpacked under swapped names and indexed in the same swapped
  order, so each neighbour is read at its own \<open>(row, column)\<close>.
\<close>

fun runs_loop :: "int list \<Rightarrow> nat \<Rightarrow> nat list \<Rightarrow> nat \<times> nat list" where
  "runs_loop [] run adds = (run, adds)"
| "runs_loop (c # circle) run adds =
     (if c = 1 then runs_loop circle (run + 1) adds
      else if run > 0 then runs_loop circle 0 (adds @ [run])
      else runs_loop circle run adds)"

definition cont_runs :: "int list \<Rightarrow> nat \<times> nat" where
  "cont_runs circle =
     (let (run, adds0) = runs_loop circle 0 [];
          adds1 = (if run > 0 then adds0 @ [run] else adds0);
          adds = (if length adds1 > 1 \<and> length circle = 8 \<and> circle ! 0 = 1 \<and> last circle = 1
                  then butlast (adds1 [0 := adds1 ! 0 + last adds1])
                  else adds1)
      in if adds = [] then (0, 0) else (Max (set adds), length adds))"

definition count_cont_nbs ::
  "nat \<times> nat \<Rightarrow> (nat \<times> nat \<Rightarrow> int) \<Rightarrow> nat \<Rightarrow> nat \<Rightarrow> int list \<Rightarrow> nat \<times> nat" where
  "count_cont_nbs shape state_arr y_idx x_idx target_vals =
     (let circle = map (\<lambda>nb. if state_arr nb \<in> set target_vals then 1 else 0)
                       (iter_nbs shape y_idx x_idx False)
      in cont_runs circle)"

text \<open>
  The runs of a ring read as a circular sequence, as the specification asks for them:
  the longest stretch of ones met from any starting position going round, and the number
  of positions where a run starts (a one whose circular predecessor is not a one), a ring
  of ones only being one run.
\<close>

definition circular_runs :: "int list \<Rightarrow> nat \<times> nat" where
  "circular_runs ring =
     (let n = length ring;
          starts = filter (\<lambda>i. ring ! i = 1 \<and> ring ! ((i + n - 1) mod n) \<noteq> 1) [0 ..< n];
          stretches = map (\<lambda>i. length (takeWhile (\<lambda>v. v = 1) (rotate i ring))) [0 ..< n]
      in if list_all (\<lambda>v. v \<noteq> 1) ring then (0, 0)
         else (Max (set stretches), if list_all (\<lambda>v. v = 1) ring then 1 else length starts))"

text \<open>
  The runs of a ring read as a linear sequence, from its first position to its last: the
  longest stretch of ones met from any starting position going on to the end, and the
  number of positions where a run starts (a one that is first or whose predecessor is not
  a one).
\<close>

definition linear_runs :: "int list \<Rightarrow> nat \<times> nat" where
  "linear_runs ring =
     (let n = length ring;
          starts = filter (\<lambda>i. ring ! i = 1 \<and> (i = 0 \<or> ring ! (i - 1) \<noteq> 1)) [0 ..< n];
          stretches = map (\<lambda>i. length (takeWhile (\<lambda>v. v = 1) (drop i ring))) [0 ..< n]
      in if list_all (\<lambda>v. v \<noteq> 1) ring then (0, 0)
         else (Max (set stretches), length starts))"

text \<open>
  Example grids: a corner whose two rook neighbours are built, a 3 by 3 ring, and a grid of
  two rows \<open>[1, 0, 1]\<close> and \<open>[2, 0, 1]\<close>.
\<close>

definition edge_grid :: "nat \<times> nat \<Rightarrow> int" where
  "edge_grid = (\<lambda>c. if c = (0, 1) \<or> c = (1, 1) then 0 else if c = (1, 0) then 2 else 1)"

definition corner_grid :: "nat \<times> nat \<Rightarrow> int" where
  "corner_grid = (\<lambda>c. if c = (1, 0) \<or> c = (0, 1) then 1 else 0)"

definition joined_grid :: "nat \<times> nat \<Rightarrow> int" where
  "joined_grid = (\<lambda>c. if c = (2, 0) \<or> c = (1, 0) then 1 else 0)"

subsection \<open>Accessibility surface\<close>

text \<open>\<^verbatim>\<open>np.ndindex(arr.shape)\<close>: every index pair, rows first.\<close>

definition ndindex :: "nat \<times> nat \<Rightarrow> (nat \<times> nat) list" where
  "ndindex shape = List.product [0 ..< fst shape] [0 ..< snd shape]"

definition hypot :: "real \<Rightarrow> real \<Rightarrow> real" where
  "hypot a b = sqrt (a\<^sup>2 + b\<^sup>2)"

text \<open>
  \<^verbatim>\<open>
  def _agg_access(y_idx, x_idx, arr, granularity_m, walk_dist_m, positive):
      for cy_idx, cx_idx in np.ndindex(arr.shape):
          y_dist = int(abs(y_idx - cy_idx) * granularity_m)
          x_dist = int(abs(x_idx - cx_idx) * granularity_m)
          dist = np.hypot(x_dist, y_dist)
          if dist > walk_dist_m:
              continue
          val = 1 - dist / walk_dist_m
          if positive:
              arr[cy_idx, cx_idx] += val
          else:
              arr[cy_idx, cx_idx] -= val
      return arr
  \<close>
\<close>

fun agg_access_loop ::
  "nat \<Rightarrow> nat \<Rightarrow> int \<Rightarrow> int \<Rightarrow> bool \<Rightarrow> (nat \<times> nat) list \<Rightarrow> (nat \<times> nat \<Rightarrow> real)
   \<Rightarrow> error + (nat \<times> nat \<Rightarrow> real)" where
  "agg_access_loop y_idx x_idx granularity_m walk_dist_m positive [] arr = Inr arr"
| "agg_access_loop y_idx x_idx granularity_m walk_dist_m positive ((cy_idx, cx_idx) # cells) arr =
     (let y_dist = \<bar>int y_idx - int cy_idx\<bar> * granularity_m;
          x_dist = \<bar>int x_idx - int cx_idx\<bar> * granularity_m;
          dist = hypot (real_of_int x_dist) (real_of_int y_dist)
      in
      if dist > real_of_int walk_dist_m
      then agg_access_loop y_idx x_idx granularity_m walk_dist_m positive cells arr
      else
        bind (truediv dist (real_of_int walk_dist_m)) (\<lambda>q.
        let val = 1 - q in
        if positive
        then agg_access_loop y_idx x_idx granularity_m walk_dist_m positive cells
               (arr ((cy_idx, cx_idx) := arr (cy_idx, cx_idx) + val))
        else agg_access_loop y_idx x_idx granularity_m walk_dist_m positive cells
               (arr ((cy_idx, cx_idx) := arr (cy_idx, cx_idx) - val))))"

definition agg_access ::
  "nat \<times> nat \<Rightarrow> nat \<Rightarrow> nat \<Rightarrow> (nat \<times> nat \<Rightarrow> real) \<Rightarrow> int \<Rightarrow> int \<Rightarrow> bool
   \<Rightarrow> error + (nat \<times> nat \<Rightarrow> real)" where
  "agg_access shape y_idx x_idx arr granularity_m walk_dist_m positive =
     agg_access_loop y_idx x_idx granularity_m walk_dist_m positive (ndindex shape) arr"

definition inc_access ::
  "nat \<times> nat \<Rightarrow> nat \<Rightarrow> nat \<Rightarrow> (nat \<times> nat \<Rightarrow> real) \<Rightarrow> int \<Rightarrow> int \<Rightarrow> error + (nat \<times> nat \<Rightarrow> real)" where
  "inc_access shape y_idx x_idx arr granularity_m walk_dist_m =
     agg_access shape y_idx x_idx arr granularity_m walk_dist_m True"

definition decr_access ::
  "nat \<times> nat \<Rightarrow> nat \<Rightarrow> nat \<Rightarrow> (nat \<times> nat \<Rightarrow> real) \<Rightarrow> int \<Rightarrow> int \<Rightarrow> error + (nat \<times> nat \<Rightarrow> real)" where
  "decr_access shape y_idx x_idx arr granularity_m walk_dist_m =
     agg_access shape y_idx x_idx arr granularity_m walk_dist_m False"

text \<open>
  \<^verbatim>\<open>
  def _compute_centres_access(state_arr, granularity_m, walk_dist_m):
      cent_acc_arr = np.full(state_arr.shape, 0, dtype=np.float32)
      for sy_idx, sx_idx in np.ndindex(state_arr.shape):
          if state_arr[sy_idx, sx_idx] != 2:
              continue
          cent_acc_arr = _inc_access(sy_idx, sx_idx, cent_acc_arr, granularity_m, walk_dist_m)
      return cent_acc_arr
  \<close>
\<close>

fun compute_centres_access_loop ::
  "nat \<times> nat \<Rightarrow> (nat \<times> nat \<Rightarrow> int) \<Rightarrow> int \<Rightarrow> int \<Rightarrow> (nat \<times> nat) list \<Rightarrow> (nat \<times> nat \<Rightarrow> real)
   \<Rightarrow> error + (nat \<times> nat \<Rightarrow> real)" where
  "compute_centres_access_loop shape state_arr granularity_m walk_dist_m [] cent_acc_arr =
     Inr cent_acc_arr"
| "compute_centres_access_loop shape state_arr granularity_m walk_dist_m ((sy_idx, sx_idx) # cells)
     cent_acc_arr =
     (if state_arr (sy_idx, sx_idx) \<noteq> 2
      then compute_centres_access_loop shape state_arr granularity_m walk_dist_m cells cent_acc_arr
      else bind (inc_access shape sy_idx sx_idx cent_acc_arr granularity_m walk_dist_m)
             (compute_centres_access_loop shape state_arr granularity_m walk_dist_m cells))"

definition compute_centres_access ::
  "nat \<times> nat \<Rightarrow> (nat \<times> nat \<Rightarrow> int) \<Rightarrow> int \<Rightarrow> int \<Rightarrow> error + (nat \<times> nat \<Rightarrow> real)" where
  "compute_centres_access shape state_arr granularity_m walk_dist_m =
     compute_centres_access_loop shape state_arr granularity_m walk_dist_m (ndindex shape) (\<lambda>c. 0)"

subsection \<open>Green interface tracker\<close>

text \<open>
  \<^verbatim>\<open>
  def _green_state(y_idx, x_idx, state_arr, green_itx_arr, old_green_acc_arr,
                   granularity_m, walk_dist_m):
      new_green_acc_arr = np.copy(old_green_acc_arr)
      if green_itx_arr[y_idx, x_idx] == 1:
          green_itx_arr[y_idx, x_idx] = 0
          new_green_acc_arr = _decr_access(y_idx, x_idx, new_green_acc_arr, granularity_m, walk_dist_m)
      for x_nb_idx, y_nb_idx in _iter_nbs(green_itx_arr, y_idx, x_idx, rook=True):
          if state_arr[x_nb_idx, y_nb_idx] == 0 and green_itx_arr[x_nb_idx, y_nb_idx] == 0:
              green_itx_arr[x_nb_idx, y_nb_idx] = 1
              new_green_acc_arr = _inc_access(x_nb_idx, y_nb_idx, new_green_acc_arr, granularity_m, walk_dist_m)
      zero_y_idx, zero_x_idxs = np.where(old_green_acc_arr - new_green_acc_arr > 0)
      for zero_y_idx, zero_x_idx in zip(zero_y_idx, zero_x_idxs):
          if new_green_acc_arr[zero_y_idx, zero_x_idx] == 0 and old_green_acc_arr[zero_y_idx, zero_x_idx] > 0:
              green_itx_arr[y_idx, x_idx] = 2
              return False, green_itx_arr, old_green_acc_arr
      return True, green_itx_arr, new_green_acc_arr
  \<close>
  The frontier array is mutated in place; the access array is copied first, so the old
  one is still there to compare with and to return.
\<close>

fun green_state_nbs ::
  "nat \<times> nat \<Rightarrow> (nat \<times> nat \<Rightarrow> int) \<Rightarrow> int \<Rightarrow> int \<Rightarrow> (nat \<times> nat) list
   \<Rightarrow> (nat \<times> nat \<Rightarrow> int) \<Rightarrow> (nat \<times> nat \<Rightarrow> real)
   \<Rightarrow> error + ((nat \<times> nat \<Rightarrow> int) \<times> (nat \<times> nat \<Rightarrow> real))" where
  "green_state_nbs shape state_arr granularity_m walk_dist_m [] green_itx_arr new_green_acc_arr =
     Inr (green_itx_arr, new_green_acc_arr)"
| "green_state_nbs shape state_arr granularity_m walk_dist_m ((x_nb_idx, y_nb_idx) # nbs)
     green_itx_arr new_green_acc_arr =
     (if state_arr (x_nb_idx, y_nb_idx) = 0 \<and> green_itx_arr (x_nb_idx, y_nb_idx) = 0
      then bind (inc_access shape x_nb_idx y_nb_idx new_green_acc_arr granularity_m walk_dist_m)
             (green_state_nbs shape state_arr granularity_m walk_dist_m nbs
                (green_itx_arr ((x_nb_idx, y_nb_idx) := 1)))
      else green_state_nbs shape state_arr granularity_m walk_dist_m nbs
             green_itx_arr new_green_acc_arr)"

text \<open>The last loop: is there a compared cell that fell from a positive value to zero?\<close>

fun green_state_stranded ::
  "(nat \<times> nat) list \<Rightarrow> (nat \<times> nat \<Rightarrow> real) \<Rightarrow> (nat \<times> nat \<Rightarrow> real) \<Rightarrow> bool" where
  "green_state_stranded [] new_green_acc_arr old_green_acc_arr = False"
| "green_state_stranded (zero_idx # zero_idxs) new_green_acc_arr old_green_acc_arr =
     (if new_green_acc_arr zero_idx = 0 \<and> old_green_acc_arr zero_idx > 0 then True
      else green_state_stranded zero_idxs new_green_acc_arr old_green_acc_arr)"

definition green_state ::
  "nat \<times> nat \<Rightarrow> nat \<Rightarrow> nat \<Rightarrow> (nat \<times> nat \<Rightarrow> int) \<Rightarrow> (nat \<times> nat \<Rightarrow> int) \<Rightarrow> (nat \<times> nat \<Rightarrow> real)
   \<Rightarrow> int \<Rightarrow> int \<Rightarrow> error + (bool \<times> (nat \<times> nat \<Rightarrow> int) \<times> (nat \<times> nat \<Rightarrow> real))" where
  "green_state shape y_idx x_idx state_arr green_itx_arr old_green_acc_arr granularity_m walk_dist_m =
     bind (if green_itx_arr (y_idx, x_idx) = 1
           then bind (decr_access shape y_idx x_idx old_green_acc_arr granularity_m walk_dist_m)
                  (\<lambda>new_green_acc_arr. Inr (green_itx_arr ((y_idx, x_idx) := 0), new_green_acc_arr))
           else Inr (green_itx_arr, old_green_acc_arr)) (\<lambda>(green_itx_arr1, new_green_acc_arr1).
     bind (green_state_nbs shape state_arr granularity_m walk_dist_m (iter_nbs shape y_idx x_idx True)
             green_itx_arr1 new_green_acc_arr1) (\<lambda>(green_itx_arr2, new_green_acc_arr).
     let zero_idxs = filter (\<lambda>c. old_green_acc_arr c - new_green_acc_arr c > 0) (ndindex shape) in
     if green_state_stranded zero_idxs new_green_acc_arr old_green_acc_arr
     then Inr (False, green_itx_arr2 ((y_idx, x_idx) := 2), old_green_acc_arr)
     else Inr (True, green_itx_arr2, new_green_acc_arr)))"

text \<open>
  \<^verbatim>\<open>
  def _compute_green_itx(state_arr, granularity_m, walk_dist_m):
      green_itx_arr = np.full(state_arr.shape, 0, np.int16)
      green_acc_arr = np.full(state_arr.shape, 0, np.float32)
      for y_idx, x_idx in np.ndindex(state_arr.shape):
          if state_arr[y_idx, x_idx] < 1:
              continue
          _success, green_itx_arr, green_acc_arr = _green_state(
              y_idx, x_idx, state_arr, green_itx_arr, green_acc_arr, granularity_m, walk_dist_m)
      return green_itx_arr, green_acc_arr
  \<close>
\<close>

fun compute_green_itx_loop ::
  "nat \<times> nat \<Rightarrow> (nat \<times> nat \<Rightarrow> int) \<Rightarrow> int \<Rightarrow> int \<Rightarrow> (nat \<times> nat) list
   \<Rightarrow> (nat \<times> nat \<Rightarrow> int) \<Rightarrow> (nat \<times> nat \<Rightarrow> real)
   \<Rightarrow> error + ((nat \<times> nat \<Rightarrow> int) \<times> (nat \<times> nat \<Rightarrow> real))" where
  "compute_green_itx_loop shape state_arr granularity_m walk_dist_m [] green_itx_arr green_acc_arr =
     Inr (green_itx_arr, green_acc_arr)"
| "compute_green_itx_loop shape state_arr granularity_m walk_dist_m ((y_idx, x_idx) # cells)
     green_itx_arr green_acc_arr =
     (if state_arr (y_idx, x_idx) < 1
      then compute_green_itx_loop shape state_arr granularity_m walk_dist_m cells
             green_itx_arr green_acc_arr
      else bind (green_state shape y_idx x_idx state_arr green_itx_arr green_acc_arr
                   granularity_m walk_dist_m)
             (\<lambda>(success, green_itx_arr', green_acc_arr').
                compute_green_itx_loop shape state_arr granularity_m walk_dist_m cells
                  green_itx_arr' green_acc_arr'))"

definition compute_green_itx ::
  "nat \<times> nat \<Rightarrow> (nat \<times> nat \<Rightarrow> int) \<Rightarrow> int \<Rightarrow> int
   \<Rightarrow> error + ((nat \<times> nat \<Rightarrow> int) \<times> (nat \<times> nat \<Rightarrow> real))" where
  "compute_green_itx shape state_arr granularity_m walk_dist_m =
     compute_green_itx_loop shape state_arr granularity_m walk_dist_m (ndindex shape)
       (\<lambda>c. 0) (\<lambda>c. 0)"

text \<open>
  What the specification says the green accessibility surface is: at every cell, the sum
  over the active frontier cells (value 1 in the frontier array) within the walking
  radius of \<open>1 - distance / walk_radius\<close>.
\<close>

definition decay :: "int \<Rightarrow> int \<Rightarrow> nat \<times> nat \<Rightarrow> nat \<times> nat \<Rightarrow> real" where
  "decay granularity_m walk_dist_m source c =
     (let dist = hypot (real_of_int (\<bar>int (snd source) - int (snd c)\<bar> * granularity_m))
                       (real_of_int (\<bar>int (fst source) - int (fst c)\<bar> * granularity_m))
      in if dist > real_of_int walk_dist_m then 0 else 1 - dist / real_of_int walk_dist_m)"

definition frontier_access ::
  "nat \<times> nat \<Rightarrow> (nat \<times> nat \<Rightarrow> int) \<Rightarrow> int \<Rightarrow> int \<Rightarrow> nat \<times> nat \<Rightarrow> real" where
  "frontier_access shape green_itx_arr granularity_m walk_dist_m c =
     sum_list (map (\<lambda>source. decay granularity_m walk_dist_m source c)
                   (filter (\<lambda>source. green_itx_arr source = 1) (ndindex shape)))"

text \<open>A strip of five cells with a centre at its left end.\<close>

definition strip_state :: "nat \<times> nat \<Rightarrow> int" where
  "strip_state = (\<lambda>c. if c = (0, 0) then 2 else 0)"

subsection \<open>The engine\<close>

text \<open>
  Two generators are in play. The draws of \<^verbatim>\<open>iter_land_isobenefit\<close>, a plain Python
  method, come from numpy's global generator, which \<^verbatim>\<open>np.random.seed\<close> resets in the
  constructor. The draw of \<^verbatim>\<open>_random_density\<close> is made inside a function compiled by
  \<^verbatim>\<open>@njit\<close>, and so comes from numba's own generator: numba keeps a generator state of
  its own, seeded at start-up from the operating system, which a call of
  \<^verbatim>\<open>np.random.seed\<close> from interpreted code does not touch.
\<close>

record rng_state =
  np_rng :: stream
  nb_rng :: stream

text \<open>
  The fields of \<^verbatim>\<open>class Land\<close>. The shape shared by its arrays is kept in \<open>arr_shape\<close>;
  the affine transform \<open>trf\<close> is kept as the map \<^verbatim>\<open>transform.rowcol(trf, east, north)\<close>
  from coordinates to array indices.
\<close>

record Land =
  iters :: int
  granularity_m :: int
  walk_dist_m :: int
  trf :: "int \<times> int \<Rightarrow> int \<times> int"
  build_prob :: real
  cent_prob_nb :: real
  cent_prob_isol :: real
  max_local_pop :: int
  prob_distribution :: "real \<times> real \<times> real"
  density_factors :: "real \<times> real \<times> real"
  arr_shape :: "nat \<times> nat"
  state_arr :: "nat \<times> nat \<Rightarrow> int"
  green_itx_arr :: "nat \<times> nat \<Rightarrow> int"
  density_arr :: "nat \<times> nat \<Rightarrow> real"
  cent_acc_arr :: "nat \<times> nat \<Rightarrow> real"
  green_acc_arr :: "nat \<times> nat \<Rightarrow> real"
  areas_arr :: "(nat \<times> nat \<Rightarrow> int) option"
  min_green_km2 :: int
  min_long_green_span_m :: int
  min_short_green_span_m :: int

text \<open>
  An integer index into an axis of length \<open>n\<close>: numpy counts a negative index from the
  end and raises \<^verbatim>\<open>IndexError\<close> outside \<open>-n .. n - 1\<close>.
\<close>

definition np_index :: "nat \<Rightarrow> int \<Rightarrow> error + nat" where
  "np_index n i =
     (if 0 \<le> i \<and> i < int n then Inr (nat i)
      else if - int n \<le> i \<and> i < 0 then Inr (nat (i + int n))
      else Inl IndexError)"

text \<open>
  \<^verbatim>\<open>
  for east, north in centre_seeds:
      x, y = transform.rowcol(self.trf, east, north)
      self.state_arr[x, y] = 2
  \<close>
\<close>

fun seed_centres ::
  "(int \<times> int \<Rightarrow> int \<times> int) \<Rightarrow> nat \<times> nat \<Rightarrow> (int \<times> int) list \<Rightarrow> (nat \<times> nat \<Rightarrow> int)
   \<Rightarrow> error + (nat \<times> nat \<Rightarrow> int)" where
  "seed_centres rowcol shape [] st = Inr st"
| "seed_centres rowcol shape ((east, north) # seeds) st =
     (let (x, y) = rowcol (east, north) in
      bind (np_index (fst shape) x) (\<lambda>i.
      bind (np_index (snd shape) y) (\<lambda>j.
      seed_centres rowcol shape seeds (st ((i, j) := 2)))))"

text \<open>
  \<^verbatim>\<open>np.random.seed(random_seed)\<close>, the first statement of the constructor: it resets
  numpy's global generator for a seed from 0 to \<open>2^32 - 1\<close> and raises \<^verbatim>\<open>ValueError\<close>
  for any other integer.
\<close>

definition SeedError :: error where
  "SeedError = ValueError ''Seed must be between 0 and 2**32 - 1''"

definition np_random_seed :: "(int \<Rightarrow> stream) \<Rightarrow> int \<Rightarrow> rng_state \<Rightarrow> error + rng_state" where
  "np_random_seed mt seed R =
     (if 0 \<le> seed \<and> seed < 2 ^ 32 then Inr (R \<lparr>np_rng := mt seed\<rparr>) else Inl SeedError)"

text \<open>
  \<^verbatim>\<open>Land.__init__\<close>. Its parameters carry a prime where a field has the same name.
  \<open>mt\<close> is the generator of numpy: the stream that follows \<^verbatim>\<open>np.random.seed(s)\<close>.
  The extents array comes with its shape, and its values are taken to be in the range of
  \<^verbatim>\<open>np.int16\<close> already.
  \<^verbatim>\<open>
  np.random.seed(random_seed)
  self.iters = 0
  ...
  self.state_arr = np.full(extents_arr.shape, 0, dtype=np.int16)
  self.state_arr[:, :] = extents_arr
  area = self.state_arr.shape[0] * granularity_m * self.state_arr.shape[1] * granularity_m
  if area / (1000 * 1000) < 2 * min_green_km2:
      raise ValueError("Please decrease min_green_km2 in relation to extents.")
  for east, north in centre_seeds: ...
  self.green_itx_arr, self.green_acc_arr = _compute_green_itx(
      state_arr=self.state_arr, granularity_m=granularity_m, walk_dist_m=walk_dist_m)
  self.density_arr = np.full(extents_arr.shape, 0, dtype=np.float32)
  self.areas_arr = None
  self.cent_acc_arr = _compute_centres_access(
      state_arr=self.state_arr, granularity_m=granularity_m, walk_dist_m=walk_dist_m)
  self.min_green_km2 = min_green_km2
  ...
  \<close>
\<close>

definition Land_init ::
  "(int \<Rightarrow> stream) \<Rightarrow> rng_state \<Rightarrow>
   int \<Rightarrow> int \<Rightarrow> (int \<times> int \<Rightarrow> int \<times> int) \<Rightarrow> nat \<times> nat \<Rightarrow> (nat \<times> nat \<Rightarrow> int) \<Rightarrow> (int \<times> int) list \<Rightarrow>
   real \<Rightarrow> real \<Rightarrow> real \<Rightarrow> int \<Rightarrow> real \<times> real \<times> real \<Rightarrow> real \<times> real \<times> real \<Rightarrow>
   int \<Rightarrow> int \<Rightarrow> int \<Rightarrow> int \<Rightarrow> error + (Land \<times> rng_state)" where
  "Land_init mt R granularity_m' walk_dist_m' extents_transform extents_shape extents_arr centre_seeds
     build_prob' cent_prob_nb' cent_prob_isol' max_local_pop' prob_distribution' density_factors'
     min_green_km2' min_long_green_span_m' min_short_green_span_m' random_seed =
     bind (np_random_seed mt random_seed R) (\<lambda>R'.
      let area = int (fst extents_shape) * granularity_m' * int (snd extents_shape) * granularity_m'
      in
      if real_of_int area / (1000 * 1000) < real_of_int (2 * min_green_km2')
      then Inl ConfigurationError
      else
        bind (seed_centres extents_transform extents_shape centre_seeds extents_arr) (\<lambda>st.
        bind (compute_green_itx extents_shape st granularity_m' walk_dist_m') (\<lambda>(itx, green_acc).
        bind (compute_centres_access extents_shape st granularity_m' walk_dist_m') (\<lambda>cent_acc.
        Inr (\<lparr>iters = 0,
              granularity_m = granularity_m',
              walk_dist_m = walk_dist_m',
              trf = extents_transform,
              build_prob = build_prob',
              cent_prob_nb = cent_prob_nb',
              cent_prob_isol = cent_prob_isol',
              max_local_pop = max_local_pop',
              prob_distribution = prob_distribution',
              density_factors = density_factors',
              arr_shape = extents_shape,
              state_arr = st,
              green_itx_arr = itx,
              density_arr = (\<lambda>c. 0),
              cent_acc_arr = cent_acc,
              green_acc_arr = green_acc,
              areas_arr = None,
              min_green_km2 = min_green_km2',
              min_long_green_span_m = min_long_green_span_m',
              min_short_green_span_m = min_short_green_span_m'\<rparr>, R')))))"

subsection \<open>Growth step\<close>

text \<open>
  The state of the scan of one step: the engine, the generators, the two counters and
  what \<^verbatim>\<open>print\<close> has written.
\<close>

type_synonym scan = "Land \<times> rng_state \<times> int \<times> int \<times> (nat \<times> nat) list"

text \<open>
  The neighbour-development branch:
  \<^verbatim>\<open>
  if np.random.rand() < self.build_prob:
      if self.iters == 14:
          print(y_idx, x_idx)
      success, self.green_itx_arr, self.green_acc_arr = _green_state(
          y_idx, x_idx, self.state_arr, self.green_itx_arr, self.green_acc_arr,
          self.granularity_m, self.walk_dist_m)
      if success:
          self.state_arr[y_idx, x_idx] = 1
          added_blocks += 1
          self.density_arr[y_idx, x_idx] = _random_density(
              self.prob_distribution, self.density_factors)
  \<close>
\<close>

definition try_build :: "nat \<Rightarrow> nat \<Rightarrow> scan \<Rightarrow> error + scan" where
  "try_build y_idx x_idx s =
     (case s of (self, R, added_blocks, added_centrality, out) \<Rightarrow>
      let (p, np') = rand (np_rng R); R1 = R \<lparr>np_rng := np'\<rparr> in
      if p < build_prob self then
        (let out1 = (if iters self = 14 then out @ [(y_idx, x_idx)] else out) in
         bind (green_state (arr_shape self) y_idx x_idx (state_arr self) (green_itx_arr self)
                 (green_acc_arr self) (granularity_m self) (walk_dist_m self))
           (\<lambda>(success, itx, acc).
              let self1 = self \<lparr>green_itx_arr := itx, green_acc_arr := acc\<rparr> in
              if success then
                (let self2 = self1 \<lparr>state_arr := (state_arr self1) ((y_idx, x_idx) := 1)\<rparr>;
                     (d, nb') = random_density (prob_distribution self2) (density_factors self2)
                                  (nb_rng R1)
                 in Inr (self2 \<lparr>density_arr := (density_arr self2) ((y_idx, x_idx) := d)\<rparr>,
                         R1 \<lparr>nb_rng := nb'\<rparr>, added_blocks + 1, added_centrality, out1))
              else Inr (self1, R1, added_blocks, added_centrality, out1)))
      else Inr (self, R1, added_blocks, added_centrality, out))"

text \<open>
  The centrality branch, which the method holds twice: with \<^verbatim>\<open>self.cent_prob_nb\<close> for
  a frontier cell without access to a centre, with \<^verbatim>\<open>self.cent_prob_isol\<close> for a Nature
  cell that is no active frontier cell.
  \<^verbatim>\<open>
  if np.random.rand() < self.cent_prob_nb:
      success, self.green_itx_arr, self.green_acc_arr = _green_state(...)
      if success:
          self.state_arr[y_idx, x_idx] = 2
          self.cent_acc_arr = _inc_access(
              y_idx, x_idx, self.cent_acc_arr, self.granularity_m, self.walk_dist_m)
          added_centrality += 1
          self.density_arr[y_idx, x_idx] = _random_density(
              self.prob_distribution, self.density_factors)
  \<close>
\<close>

definition try_centre :: "real \<Rightarrow> nat \<Rightarrow> nat \<Rightarrow> scan \<Rightarrow> error + scan" where
  "try_centre cent_prob y_idx x_idx s =
     (case s of (self, R, added_blocks, added_centrality, out) \<Rightarrow>
      let (p, np') = rand (np_rng R); R1 = R \<lparr>np_rng := np'\<rparr> in
      if p < cent_prob then
        bind (green_state (arr_shape self) y_idx x_idx (state_arr self) (green_itx_arr self)
                (green_acc_arr self) (granularity_m self) (walk_dist_m self))
          (\<lambda>(success, itx, acc).
             let self1 = self \<lparr>green_itx_arr := itx, green_acc_arr := acc\<rparr> in
             if success then
               (let self2 = self1 \<lparr>state_arr := (state_arr self1) ((y_idx, x_idx) := 2)\<rparr> in
                bind (inc_access (arr_shape self2) y_idx x_idx (cent_acc_arr self2)
                        (granularity_m self2) (walk_dist_m self2))
                  (\<lambda>cent_acc.
                     let self3 = self2 \<lparr>cent_acc_arr := cent_acc\<rparr>;
                         (d, nb') = random_density (prob_distribution self3) (density_factors self3)
                                      (nb_rng R1)
                     in Inr (self3 \<lparr>density_arr := (density_arr self3) ((y_idx, x_idx) := d)\<rparr>,
                             R1 \<lparr>nb_rng := nb'\<rparr>, added_blocks, added_centrality + 1, out)))
             else Inr (self1, R1, added_blocks, added_centrality, out))
      else Inr (self, R1, added_blocks, added_centrality, out))"

text \<open>
  The body of the scan for one cell.
  \<^verbatim>\<open>
  if self.green_itx_arr[y_idx, x_idx] == 1:
      area = self.areas_arr[y_idx, x_idx]
      if area > cell_area and area < self.min_green_km2:
          continue
      if not green_rays(self.state_arr, y_idx, x_idx, self.granularity_m,
                        self.min_long_green_span_m, self.min_short_green_span_m):
          continue
      urban_nbs, urban_regions = _count_cont_nbs(self.state_arr, y_idx, x_idx, [1, 2])
      green_nbs, green_regions = _count_cont_nbs(self.state_arr, y_idx, x_idx, [0])
      if self.cent_acc_arr[y_idx, x_idx] > 0:
          (neighbour development, with self.build_prob)
      else:
          (centrality, with self.cent_prob_nb)
  elif self.state_arr[y_idx, x_idx] == 0:
      (centrality, with self.cent_prob_isol)
  \<close>
  where \<^verbatim>\<open>cell_area = int((self.granularity_m / 1000) ** 2)\<close>. Indexing \<^verbatim>\<open>None\<close> raises
  \<^verbatim>\<open>TypeError\<close>; the method sets \<^verbatim>\<open>self.areas_arr\<close> before the scan.
\<close>

definition iter_cell :: "nat \<times> nat \<Rightarrow> scan \<Rightarrow> error + scan" where
  "iter_cell c s =
     (case s of (self, R, added_blocks, added_centrality, out) \<Rightarrow>
      let y_idx = fst c; x_idx = snd c;
          cell_area = \<lfloor>(real_of_int (granularity_m self) / 1000)\<^sup>2\<rfloor>
      in
      if green_itx_arr self (y_idx, x_idx) = 1 then
        (case areas_arr self of
           None \<Rightarrow> Inl TypeError
         | Some areas \<Rightarrow>
             let area = areas (y_idx, x_idx) in
             if area > cell_area \<and> area < min_green_km2 self then Inr s
             else
               bind (green_rays (arr_shape self) (state_arr self) y_idx x_idx (granularity_m self)
                       (min_long_green_span_m self) (min_short_green_span_m self)) (\<lambda>span_ok.
               if \<not> span_ok then Inr s
               else
                 let (urban_nbs, urban_regions) =
                       count_cont_nbs (arr_shape self) (state_arr self) y_idx x_idx [1, 2];
                     (green_nbs, green_regions) =
                       count_cont_nbs (arr_shape self) (state_arr self) y_idx x_idx [0]
                 in
                 if cent_acc_arr self (y_idx, x_idx) > 0
                 then try_build y_idx x_idx s
                 else try_centre (cent_prob_nb self) y_idx x_idx s))
      else if state_arr self (y_idx, x_idx) = 0
      then try_centre (cent_prob_isol self) y_idx x_idx s
      else Inr s)"

fun iter_scan :: "(nat \<times> nat) list \<Rightarrow> scan \<Rightarrow> error + scan" where
  "iter_scan [] s = Inr s"
| "iter_scan (c # cells) s = bind (iter_cell c s) (iter_scan cells)"

text \<open>
  \<^verbatim>\<open>Land.iter_land_isobenefit\<close>. \<open>areas_of\<close> stands for the calls of rasterio and
  shapely that build \<^verbatim>\<open>self.areas_arr\<close> from \<^verbatim>\<open>self.state_arr\<close> and \<^verbatim>\<open>self.trf\<close>
  (\<^verbatim>\<open>features.shapes\<close>, \<^verbatim>\<open>shape(feat).area\<close>, \<^verbatim>\<open>features.rasterize\<close>).
  \<^verbatim>\<open>
  def iter_land_isobenefit(self):
      self.iters += 1
      ...
      self.areas_arr = features.rasterize(...)
      cell_area = int((self.granularity_m / 1000) ** 2)
      added_blocks = 0
      added_centrality = 0
      for y_idx, x_idx in np.ndindex(self.state_arr.shape):
          ...
      LOGGER.info(f"added blocks: {added_blocks}")
      LOGGER.info(f"added centralities: {added_centrality}")
  \<close>
  The method ends after the two log lines: it has no \<^verbatim>\<open>return\<close> statement, so its
  value is \<^verbatim>\<open>None\<close>. The result of the model is the engine, the generators, the log
  lines (text and number), what was printed, and the returned value.
\<close>

definition iter_land_isobenefit ::
  "((nat \<times> nat \<Rightarrow> int) \<Rightarrow> nat \<times> nat \<Rightarrow> int) \<Rightarrow> Land \<Rightarrow> rng_state
   \<Rightarrow> error + (Land \<times> rng_state \<times> (string \<times> int) list \<times> (nat \<times> nat) list \<times> (int \<times> int) option)" where
  "iter_land_isobenefit areas_of self R =
     (let self1 = self \<lparr>iters := iters self + 1\<rparr>;
          self2 = self1 \<lparr>areas_arr := Some (areas_of (state_arr self1))\<rparr>
      in
      bind (iter_scan (ndindex (arr_shape self2)) (self2, R, 0, 0, []))
        (\<lambda>(self3, R3, added_blocks, added_centrality, out).
           Inr (self3, R3,
                [(''added blocks: '', added_blocks), (''added centralities: '', added_centrality)],
                out, None)))"

text \<open>Driving an engine through \<open>n\<close> steps.\<close>

fun run_steps ::
  "((nat \<times> nat \<Rightarrow> int) \<Rightarrow> nat \<times> nat \<Rightarrow> int) \<Rightarrow> nat \<Rightarrow> Land \<Rightarrow> rng_state \<Rightarrow> error + (Land \<times> rng_state)" where
  "run_steps areas_of 0 self R = Inr (self, R)"
| "run_steps areas_of (Suc n) self R =
     bind (iter_land_isobenefit areas_of self R)
       (\<lambda>(self', R', log, out, ret). run_steps areas_of n self' R')"

text \<open>
  The frontier and green access of the strip after construction with 100 m cells and a
  walking radius of 200 m: the cell next to the centre is the frontier.
\<close>

definition strip_itx :: "nat \<times> nat \<Rightarrow> int" where
  "strip_itx = (\<lambda>c. if c = (0, 1) then 1 else 0)"

definition strip_acc :: "nat \<times> nat \<Rightarrow> real" where
  "strip_acc = (\<lambda>c. if c = (0, 0) \<or> c = (0, 2) then 1 / 2 else if c = (0, 1) then 1 else 0)"

text \<open>
  Example arguments of the constructor: a generator that returns zeros, and both
  generators in that state.
\<close>

definition zero_mt :: "int \<Rightarrow> stream" where
  "zero_mt = (\<lambda>s n. 0)"

definition zero_rng :: rng_state where
  "zero_rng = \<lparr>np_rng = (\<lambda>n. 0), nb_rng = (\<lambda>n. 0)\<rparr>"

text \<open>
  The invariant that ties the frontier array to the classes: a cell marked active
  frontier is a Nature cell.
\<close>

definition frontier_is_nature :: "Land \<Rightarrow> bool" where
  "frontier_is_nature self = (\<forall>c. green_itx_arr self c = 1 \<longrightarrow> state_arr self c = 0)"

text \<open>The same state of numpy's generator with another state of numba's generator.\<close>

definition other_rng :: rng_state where
  "other_rng = \<lparr>np_rng = (\<lambda>n. 0), nb_rng = (\<lambda>n. 3 / 4)\<rparr>"

text \<open>A generator whose first number is 0 and whose later numbers are 3/4.\<close>

definition first_zero_mt :: "int \<Rightarrow> stream" where
  "first_zero_mt = (\<lambda>s n. if n = 0 then 0 else 3 / 4)"

section \<open>Properties\<close>

subsection \<open>Density assignment\<close>

text \<open>
  C9. \<open>random_density\<close> consumes exactly one number \<open>p\<close> of the generator and returns
  the first density factor if \<open>p\<close> lies in \<open>[0, prob_distribution[0])\<close>, otherwise the
  second factor if \<open>p\<close> lies in \<open>[prob_distribution[1], prob_distribution[2])\<close>, and
  otherwise the third one. The three thresholds are compared as they stand: they are not
  accumulated.
\<close>

theorem random_density_positional:
  "random_density (p0, p1, p2) (d0, d1, d2) s =
     ((if 0 \<le> s 0 \<and> s 0 < p0 then d0
       else if p1 \<le> s 0 \<and> s 0 < p2 then d1
       else d2),
      (\<lambda>n. s (Suc n)))"
  by (simp add: random_density_def rand_def)

subsection \<open>Sequencing of fallible steps\<close>

lemma bind_Inr [simp]: "bind (Inr v) f = f v" by (simp add: bind_def)
lemma bind_Inl [simp]: "bind (Inl e) f = Inl e" by (simp add: bind_def)

lemma bind_success: "bind m f = Inr v \<Longrightarrow> \<exists>u. m = Inr u \<and> f u = Inr v"
  by (cases m) auto

lemma bind_error: "bind m f = Inl e \<Longrightarrow> m = Inl e \<or> (\<exists>v. m = Inr v \<and> f v = Inl e)"
  by (cases m) auto

subsection \<open>Span validation\<close>






lemma sort2: "sort [a, b::nat] = [min a b, max a b]"
  by (auto simp: min_def max_def)

lemma green_rays_rule:
  assumes "g \<noteq> 0"
  shows "green_rays shape arr y_idx x_idx g min_long min_short =
     (let xl = green_ray (row_of shape arr y_idx) x_idx False;
          xr = green_ray (row_of shape arr y_idx) x_idx True;
          yl = green_ray (col_of shape arr x_idx) y_idx False;
          yr = green_ray (col_of shape arr x_idx) y_idx True;
          short_cells = real_of_int min_short / real_of_int g;
          long_cells = real_of_int min_long / real_of_int g
      in Inr (\<not> ((min xl xr \<noteq> 0 \<and> real (min xl xr) < short_cells)
               \<or> (min yl yr \<noteq> 0 \<and> real (min yl yr) < short_cells)
               \<or> real (max (max xl xr) (max yl yr)) < long_cells
               \<or> real (min (max xl xr) (max yl yr)) < short_cells)))"
proof -
  define xl where "xl = green_ray (row_of shape arr y_idx) x_idx False"
  define xr where "xr = green_ray (row_of shape arr y_idx) x_idx True"
  define yl where "yl = green_ray (col_of shape arr x_idx) y_idx False"
  define yr where "yr = green_ray (col_of shape arr x_idx) y_idx True"
  define xlo where "xlo = min xl xr"
  define xhi where "xhi = max xl xr"
  define ylo where "ylo = min yl yr"
  define yhi where "yhi = max yl yr"
  define lo where "lo = min xhi yhi"
  define hi where "hi = max xhi yhi"
  define qs where "qs = real_of_int min_short / real_of_int g"
  define ql where "ql = real_of_int min_long / real_of_int g"
  have sx: "sort [xl, xr] = [xlo, xhi]" and sy: "sort [yl, yr] = [ylo, yhi]"
    and sm: "sort [xhi, yhi] = [lo, hi]"
    by (simp_all only: sort2 xlo_def xhi_def ylo_def yhi_def lo_def hi_def)
  have ds: "truediv (real_of_int min_short) (real_of_int g) = Inr qs"
    and dl: "truediv (real_of_int min_long) (real_of_int g) = Inr ql"
    using assms by (simp_all add: truediv_def qs_def ql_def)
  have nz: "(sum_list [xlo, xhi] \<noteq> 0 \<and> xlo \<noteq> 0) = (xlo \<noteq> 0)"
    "(sum_list [ylo, yhi] \<noteq> 0 \<and> ylo \<noteq> 0) = (ylo \<noteq> 0)"
    by auto
  have sel: "[xlo, xhi] ! 0 = xlo" "[ylo, yhi] ! 0 = ylo" "last [xlo, xhi] = xhi"
    "last [ylo, yhi] = yhi" "[lo, hi] ! 0 = lo" "last [lo, hi] = hi"
    by simp_all
  have "green_rays shape arr y_idx x_idx g min_long min_short =
      bind (if xlo \<noteq> 0 then Inr (real xlo < qs) else Inr False) (\<lambda>x_short.
      if x_short then Inr False else
      bind (if ylo \<noteq> 0 then Inr (real ylo < qs) else Inr False) (\<lambda>y_short.
      if y_short then Inr False else
      if real hi < ql then Inr False else
      if real lo < qs then Inr False else Inr True))"
    unfolding green_rays_def Let_def
    unfolding xl_def [symmetric] xr_def [symmetric] yl_def [symmetric] yr_def [symmetric]
    unfolding sx sy sel sm nz ds dl bind_Inr ..
  also have "\<dots> = Inr (\<not> ((xlo \<noteq> 0 \<and> real xlo < qs) \<or> (ylo \<noteq> 0 \<and> real ylo < qs)
                         \<or> real hi < ql \<or> real lo < qs))"
    by (cases "xlo = 0"; cases "ylo = 0"; cases "real xlo < qs"; cases "real ylo < qs";
        cases "real hi < ql"; cases "real lo < qs"; simp)
  finally show ?thesis
    unfolding Let_def xl_def xr_def yl_def yr_def xlo_def xhi_def ylo_def yhi_def lo_def hi_def
      qs_def ql_def .
qed




subsection \<open>Neighbourhood analysis\<close>

lemma iter_nbs_interior:
  assumes "0 < y" and "y + 1 < fst shape" and "0 < x" and "x + 1 < snd shape"
  shows "iter_nbs shape y x False =
    [(y + 1, x - 1), (y + 1, x), (y + 1, x + 1), (y, x + 1),
     (y - 1, x + 1), (y - 1, x), (y - 1, x - 1), (y, x - 1)]"
  using assms by (simp add: iter_nbs_def Let_def nat_add_distrib nat_diff_distrib')

lemma runs_loop_no_match:
  "\<forall>v\<in>set circle. v \<noteq> 1 \<Longrightarrow> runs_loop circle 0 adds = (0, adds)"
  by (induction circle) auto

lemma cont_runs_no_match: "\<forall>v\<in>set circle. v \<noteq> 1 \<Longrightarrow> cont_runs circle = (0, 0)"
  by (simp add: cont_runs_def runs_loop_no_match)

lemma cont_runs_enum8:
  "list_all (\<lambda>c. cont_runs c = circular_runs c) (List.n_lists 8 [0, 1])"
  by code_simp

lemma cont_runs_circular:
  assumes "length circle = 8" and "set circle \<subseteq> {0, 1}"
  shows "cont_runs circle = circular_runs circle"
proof -
  have "circle \<in> set (List.n_lists 8 [0, 1])"
    using assms by (simp add: set_n_lists)
  then show ?thesis
    using cont_runs_enum8 by (simp only: list_all_iff)
qed

lemma iter_nbs_loop_filter:
  "iter_nbs_loop shape y x offsets =
     map (\<lambda>(a, b). (nat a, nat b))
       (filter (\<lambda>(a, b). 0 \<le> a \<and> a < int (fst shape) \<and> 0 \<le> b \<and> b < int (snd shape))
          (map (\<lambda>(dy, dx). (int y + dy, int x + dx)) offsets))"
proof (induction offsets)
  case Nil
  then show ?case by simp
next
  case (Cons offset offsets)
  obtain dy dx where offset: "offset = (dy, dx)" by (cases offset)
  show ?case
    unfolding offset by (auto simp: Cons.IH Let_def)
qed

lemma iter_nbs_queen:
  "iter_nbs shape y x False =
     map (\<lambda>(a, b). (nat a, nat b))
       (filter (\<lambda>(a, b). 0 \<le> a \<and> a < int (fst shape) \<and> 0 \<le> b \<and> b < int (snd shape))
          [(int y + 1, int x - 1), (int y + 1, int x), (int y + 1, int x + 1), (int y, int x + 1),
           (int y - 1, int x + 1), (int y - 1, int x), (int y - 1, int x - 1), (int y, int x - 1)])"
  unfolding iter_nbs_def Let_def iter_nbs_loop_filter by simp

lemma iter_nbs_queen_short:
  assumes "\<not> (0 < y \<and> y + 1 < fst shape \<and> 0 < x \<and> x + 1 < snd shape)"
  shows "length (iter_nbs shape y x False) < 8"
proof -
  let ?P = "\<lambda>(a, b). 0 \<le> a \<and> a < int (fst shape) \<and> 0 \<le> b \<and> b < int (snd shape)"
  let ?ps = "[(int y + 1, int x - 1), (int y + 1, int x), (int y + 1, int x + 1), (int y, int x + 1),
           (int y - 1, int x + 1), (int y - 1, int x), (int y - 1, int x - 1), (int y, int x - 1)]"
  have "\<exists>p\<in>set ?ps. \<not> ?P p"
  proof -
    from assms consider "y = 0" | "\<not> y + 1 < fst shape" | "x = 0" | "\<not> x + 1 < snd shape"
      by auto
    then show ?thesis
    proof cases
      case 1
      then have "\<not> ?P (int y - 1, int x)" by simp
      then show ?thesis by (intro bexI [of _ "(int y - 1, int x)"]) simp_all
    next
      case 2
      then have "\<not> ?P (int y + 1, int x)" by auto
      then show ?thesis by (intro bexI [of _ "(int y + 1, int x)"]) simp_all
    next
      case 3
      then have "\<not> ?P (int y, int x - 1)" by simp
      then show ?thesis by (intro bexI [of _ "(int y, int x - 1)"]) simp_all
    next
      case 4
      then have "\<not> ?P (int y, int x + 1)" by auto
      then show ?thesis by (intro bexI [of _ "(int y, int x + 1)"]) simp_all
    qed
  qed
  then obtain p where "p \<in> set ?ps" and "\<not> ?P p" by blast
  then have "length (filter ?P ?ps) < length ?ps" by (rule length_filter_less)
  then show ?thesis
    unfolding iter_nbs_queen by simp
qed

lemma cont_runs_enum_short:
  "list_all (\<lambda>k. list_all (\<lambda>c. cont_runs c = linear_runs c) (List.n_lists k [0, 1])) [0 ..< 8]"
  by code_simp

lemma cont_runs_linear:
  assumes "length circle < 8" and "set circle \<subseteq> {0, 1}"
  shows "cont_runs circle = linear_runs circle"
proof -
  have "circle \<in> set (List.n_lists (length circle) [0, 1])"
    using assms by (simp add: set_n_lists)
  moreover have "list_all (\<lambda>c. cont_runs c = linear_runs c) (List.n_lists (length circle) [0, 1])"
    using cont_runs_enum_short assms(1) by (simp only: list_all_iff) simp
  ultimately show ?thesis by (simp only: list_all_iff)
qed

text \<open>
  C5 (as amended). The ring of a cell holds its queen neighbours that lie inside the grid,
  in the order of the eight offsets. At a cell with all eight neighbours inside the grid,
  \<open>count_cont_nbs\<close> returns the longest run and the number of runs of the ring read as
  a circular sequence: a run that crosses from the last ring position to the first is
  one run. At any other cell (a border cell) the ring is shorter than eight and is read
  as a linear sequence, from its first position to its last: its two ends are not
  joined. At every cell the result is \<open>(0, 0)\<close> when no neighbour has a target class.
\<close>

theorem count_cont_nbs_circular:
  "(0 < y \<and> y + 1 < fst shape \<and> 0 < x \<and> x + 1 < snd shape \<longrightarrow>
      count_cont_nbs shape st y x target_vals =
        circular_runs (map (\<lambda>nb. if st nb \<in> set target_vals then 1 else 0)
          [(y + 1, x - 1), (y + 1, x), (y + 1, x + 1), (y, x + 1),
           (y - 1, x + 1), (y - 1, x), (y - 1, x - 1), (y, x - 1)]))
   \<and> ((\<forall>nb\<in>set (iter_nbs shape y x False). st nb \<notin> set target_vals) \<longrightarrow>
      count_cont_nbs shape st y x target_vals = (0, 0))
   \<and> (\<not> (0 < y \<and> y + 1 < fst shape \<and> 0 < x \<and> x + 1 < snd shape) \<longrightarrow>
      length (iter_nbs shape y x False) < 8
      \<and> count_cont_nbs shape st y x target_vals =
          linear_runs (map (\<lambda>nb. if st nb \<in> set target_vals then 1 else 0)
            (iter_nbs shape y x False)))
   \<and> iter_nbs shape y x False =
       map (\<lambda>(a, b). (nat a, nat b))
         (filter (\<lambda>(a, b). 0 \<le> a \<and> a < int (fst shape) \<and> 0 \<le> b \<and> b < int (snd shape))
            [(int y + 1, int x - 1), (int y + 1, int x), (int y + 1, int x + 1),
             (int y, int x + 1), (int y - 1, int x + 1), (int y - 1, int x),
             (int y - 1, int x - 1), (int y, int x - 1)])"
proof (intro conjI impI)
  assume "0 < y \<and> y + 1 < fst shape \<and> 0 < x \<and> x + 1 < snd shape"
  then have nbs: "iter_nbs shape y x False =
    [(y + 1, x - 1), (y + 1, x), (y + 1, x + 1), (y, x + 1),
     (y - 1, x + 1), (y - 1, x), (y - 1, x - 1), (y, x - 1)]"
    by (simp add: iter_nbs_interior)
  let ?circle = "map (\<lambda>nb. if st nb \<in> set target_vals then 1 else 0::int)
                   (iter_nbs shape y x False)"
  have "length ?circle = 8" by (simp add: nbs)
  moreover have "set ?circle \<subseteq> {0, 1}" by auto
  ultimately have "cont_runs ?circle = circular_runs ?circle"
    by (rule cont_runs_circular)
  then show "count_cont_nbs shape st y x target_vals =
        circular_runs (map (\<lambda>nb. if st nb \<in> set target_vals then 1 else 0)
          [(y + 1, x - 1), (y + 1, x), (y + 1, x + 1), (y, x + 1),
           (y - 1, x + 1), (y - 1, x), (y - 1, x - 1), (y, x - 1)])"
    by (simp only: count_cont_nbs_def Let_def nbs)
next
  assume "\<forall>nb\<in>set (iter_nbs shape y x False). st nb \<notin> set target_vals"
  then show "count_cont_nbs shape st y x target_vals = (0, 0)"
    by (simp add: count_cont_nbs_def Let_def cont_runs_no_match)
next
  assume b: "\<not> (0 < y \<and> y + 1 < fst shape \<and> 0 < x \<and> x + 1 < snd shape)"
  then show short: "length (iter_nbs shape y x False) < 8" by (rule iter_nbs_queen_short)
  let ?circle = "map (\<lambda>nb. if st nb \<in> set target_vals then 1 else 0::int)
                   (iter_nbs shape y x False)"
  have "length ?circle < 8" using short by simp
  moreover have "set ?circle \<subseteq> {0, 1}" by auto
  ultimately have "cont_runs ?circle = linear_runs ?circle"
    by (rule cont_runs_linear)
  then show "count_cont_nbs shape st y x target_vals = linear_runs ?circle"
    by (simp only: count_cont_nbs_def Let_def)
next
  show "iter_nbs shape y x False =
       map (\<lambda>(a, b). (nat a, nat b))
         (filter (\<lambda>(a, b). 0 \<le> a \<and> a < int (fst shape) \<and> 0 \<le> b \<and> b < int (snd shape))
            [(int y + 1, int x - 1), (int y + 1, int x), (int y + 1, int x + 1),
             (int y, int x + 1), (int y - 1, int x + 1), (int y - 1, int x),
             (int y - 1, int x - 1), (int y, int x - 1)])"
    by (rule iter_nbs_queen)
qed

text \<open>
  On an interior ring entirely of target class the result is \<open>(8, 1)\<close>; on the ring
  \<open>[1,0,0,0,0,0,0,1]\<close> it is one run of length 2; with no target neighbour it is
  \<open>(0, 0)\<close>. At the edge cell \<open>(0, 1)\<close> of the grid with rows \<open>[1, 0, 1]\<close> and
  \<open>[2, 0, 1]\<close> the ring is \<open>[1, 0, 1, 1, 1]\<close> and the result \<open>(3, 2)\<close>; at the corner of
  the 2 by 2 grid the ring is \<open>[1, 0, 1]\<close> and the result \<open>(1, 2)\<close>.
\<close>

theorem count_cont_nbs_circular_witness:
  "count_cont_nbs (3, 3) (\<lambda>c. 1) 1 1 [1, 2] = (8, 1)
   \<and> count_cont_nbs (3, 3) joined_grid 1 1 [1] = (2, 1)
   \<and> count_cont_nbs (3, 3) (\<lambda>c. 0) 1 1 [1, 2] = (0, 0)
   \<and> count_cont_nbs (2, 3) edge_grid 0 1 [1, 2] = (3, 2)
   \<and> count_cont_nbs (2, 2) corner_grid 0 0 [1] = (1, 2)"
proof -
  have c1: "circular_runs [1, 1, 1, 1, 1, 1, 1, 1] = (8, 1)"
    and c2: "circular_runs [1, 0, 0, 0, 0, 0, 0, 1] = (2, 1)"
    by code_simp+
  have a: "count_cont_nbs (3, 3) (\<lambda>c. 1) 1 1 [1, 2] = (8, 1)"
    using conjunct1 [OF count_cont_nbs_circular [where y = 1 and shape = "(3, 3)" and x = 1
        and st = "\<lambda>c. 1" and target_vals = "[1, 2]"]] c1 by simp
  have b: "count_cont_nbs (3, 3) joined_grid 1 1 [1] = (2, 1)"
    using conjunct1 [OF count_cont_nbs_circular [where y = 1 and shape = "(3, 3)" and x = 1
        and st = joined_grid and target_vals = "[1]"]] c2
    by (simp add: joined_grid_def)
  have c: "count_cont_nbs (3, 3) (\<lambda>c. 0) 1 1 [1, 2] = (0, 0)"
    using conjunct1 [OF conjunct2 [OF count_cont_nbs_circular [where y = 1 and shape = "(3, 3)"
        and x = 1 and st = "\<lambda>c. 0" and target_vals = "[1, 2]"]]] by simp
  have r1: "map (\<lambda>nb. if edge_grid nb \<in> set [1, 2] then 1 else 0) (iter_nbs (2, 3) 0 1 False)
            = [1, 0, 1, 1, 1::int]"
    and l1: "linear_runs [1, 0, 1, 1, 1] = (3, 2)"
    and r2: "map (\<lambda>nb. if corner_grid nb \<in> set [1] then 1 else 0) (iter_nbs (2, 2) 0 0 False)
            = [1, 0, 1::int]"
    and l2: "linear_runs [1, 0, 1] = (1, 2)"
    by code_simp+
  have d: "count_cont_nbs (2, 3) edge_grid 0 1 [1, 2] = (3, 2)"
    using conjunct1 [OF conjunct2 [OF conjunct2 [OF count_cont_nbs_circular [where y = 0
        and shape = "(2, 3)" and x = 1 and st = edge_grid and target_vals = "[1, 2]"]]]]
    unfolding r1 l1 by simp
  have e: "count_cont_nbs (2, 2) corner_grid 0 0 [1] = (1, 2)"
    using conjunct1 [OF conjunct2 [OF conjunct2 [OF count_cont_nbs_circular [where y = 0
        and shape = "(2, 2)" and x = 0 and st = corner_grid and target_vals = "[1]"]]]]
    unfolding r2 l2 by simp
  show ?thesis using a b c d e by simp
qed

text \<open>
  At the corner \<open>(0, 0)\<close> of a 2 by 2 grid the ring has three positions. With the first
  and the last of them of target class and the middle one not, there are two runs and
  they are not merged: the result is \<open>(1, 2)\<close>, where the circular reading gives one run
  of length 2.
\<close>

theorem count_cont_nbs_border_counterexample:
  "map (\<lambda>nb. if corner_grid nb \<in> set [1] then 1 else 0) (iter_nbs (2, 2) 0 0 False) = [1, 0, 1::int]
   \<and> count_cont_nbs (2, 2) corner_grid 0 0 [1] = (1, 2)
   \<and> circular_runs [1, 0, 1] = (2, 1)"
proof -
  have "map (\<lambda>nb. if corner_grid nb \<in> set [1] then 1 else 0) (iter_nbs (2, 2) 0 0 False) = [1, 0, 1::int]"
    by code_simp
  moreover have "count_cont_nbs (2, 2) corner_grid 0 0 [1] = (1, 2)"
    by code_simp
  moreover have "circular_runs [1, 0, 1] = (2, 1)"
    by code_simp
  ultimately show ?thesis by simp
qed

lemma iter_nbs_rook_set:
  "set (iter_nbs shape y x True) =
     {c. fst c < fst shape \<and> snd c < snd shape \<and>
         (c = (y + 1, x) \<or> c = (y, x + 1) \<or> (0 < y \<and> c = (y - 1, x)) \<or> (0 < x \<and> c = (y, x - 1)))}"
  by (auto simp: iter_nbs_def Let_def nat_add_distrib nat_diff_distrib')

lemma iter_nbs_rook_distinct: "distinct (iter_nbs shape y x True)"
  by (auto simp: iter_nbs_def Let_def nat_add_distrib nat_diff_distrib')

lemma iter_nbs_rook_not_self: "(y, x) \<notin> set (iter_nbs shape y x True)"
  by (auto simp: iter_nbs_rook_set)

subsection \<open>Accessibility surface\<close>

lemma set_ndindex: "set (ndindex shape) = {c. fst c < fst shape \<and> snd c < snd shape}"
  by (auto simp: ndindex_def)

lemma distinct_ndindex: "distinct (ndindex shape)"
  by (simp add: ndindex_def distinct_product)

lemma in_ndindex: "(y, x) \<in> set (ndindex shape) \<longleftrightarrow> y < fst shape \<and> x < snd shape"
  by (simp add: set_ndindex)

lemma decay_self: "decay g 0 c c = 1"
  by (simp add: decay_def hypot_def)

lemma agg_access_loop_eq:
  assumes "w \<noteq> 0" and "distinct cells"
  shows "agg_access_loop y x g w pos cells arr =
    Inr (\<lambda>c. if c \<in> set cells
              then (if pos then arr c + decay g w (y, x) c else arr c - decay g w (y, x) c)
              else arr c)"
  using assms(2)
proof (induction cells arbitrary: arr)
  case Nil
  then show ?case by simp
next
  case (Cons c cells)
  obtain cy cx where c: "c = (cy, cx)" by (cases c)
  show ?case
    using Cons assms(1) unfolding c
    by (auto simp: decay_def Let_def truediv_def fun_eq_iff)
qed

lemma agg_access_loop_zero:
  "(y, x) \<in> set cells \<Longrightarrow> agg_access_loop y x g 0 pos cells arr = Inl ZeroDivisionError"
proof (induction cells arbitrary: arr)
  case Nil
  then show ?case by simp
next
  case (Cons c cells)
  obtain cy cx where c: "c = (cy, cx)" by (cases c)
  show ?case
    using Cons unfolding c
    by (auto simp: Let_def truediv_def hypot_def)
qed

lemma inc_access_eq:
  "w \<noteq> 0 \<Longrightarrow> inc_access shape y x arr g w =
     Inr (\<lambda>c. if c \<in> set (ndindex shape) then arr c + decay g w (y, x) c else arr c)"
  by (simp add: inc_access_def agg_access_def agg_access_loop_eq distinct_ndindex cong: if_cong)

lemma decr_access_eq:
  "w \<noteq> 0 \<Longrightarrow> decr_access shape y x arr g w =
     Inr (\<lambda>c. if c \<in> set (ndindex shape) then arr c - decay g w (y, x) c else arr c)"
  by (simp add: decr_access_def agg_access_def agg_access_loop_eq distinct_ndindex cong: if_cong)

text \<open>The only exception of an aggregation is the division by a zero radius.\<close>

lemma agg_access_loop_error:
  "agg_access_loop y x g w pos cells arr = Inl e \<Longrightarrow> e = ZeroDivisionError"
proof (induction cells arbitrary: arr)
  case Nil
  then show ?case by simp
next
  case (Cons c cells)
  obtain cy cx where c: "c = (cy, cx)" by (cases c)
  show ?case
    using Cons unfolding c
    by (auto simp: Let_def truediv_def split: if_splits)
qed

lemma inc_access_error: "inc_access shape y x arr g w = Inl e \<Longrightarrow> e = ZeroDivisionError"
  unfolding inc_access_def agg_access_def by (rule agg_access_loop_error)

lemma decr_access_error: "decr_access shape y x arr g w = Inl e \<Longrightarrow> e = ZeroDivisionError"
  unfolding decr_access_def agg_access_def by (rule agg_access_loop_error)

lemma agg_access_zero:
  "(y, x) \<in> set (ndindex shape) \<Longrightarrow> agg_access shape y x arr g 0 pos = Inl ZeroDivisionError"
  unfolding agg_access_def by (rule agg_access_loop_zero)

text \<open>
  A contribution is never negative. When an aggregation returns, it has added or
  subtracted the contribution of its source at every cell of the grid, also with a
  zero radius (where it returns only if it reached no division).
\<close>

lemma decay_nonneg: "w \<noteq> 0 \<Longrightarrow> 0 \<le> decay g w s c"
proof -
  assume w: "w \<noteq> 0"
  have h: "0 \<le> hypot a b" for a b by (simp add: hypot_def)
  show ?thesis
  proof (cases "0 < w")
    case True
    then show ?thesis by (auto simp: decay_def Let_def divide_le_eq)
  next
    case False
    then have "real_of_int w < 0" using w by simp
    then have "hypot a b > real_of_int w" for a b using h [of a b] by linarith
    then show ?thesis by (simp add: decay_def Let_def)
  qed
qed

lemma decay_nonneg_any: "0 \<le> decay g w s c"
proof (cases "w = 0")
  case False
  then show ?thesis by (rule decay_nonneg)
next
  case True
  have "0 \<le> hypot a b" for a b by (simp add: hypot_def)
  then show ?thesis
    unfolding True decay_def Let_def by (simp add: not_less)
qed

lemma decay_far:
  "hypot (real_of_int (\<bar>int x - int cx\<bar> * g)) (real_of_int (\<bar>int y - int cy\<bar> * g)) > real_of_int w
   \<Longrightarrow> decay g w (y, x) (cy, cx) = 0"
  by (simp add: decay_def Let_def)

lemma agg_access_loop_zero_returns:
  "agg_access_loop y x g 0 pos cells arr = Inr arr' \<Longrightarrow>
   arr' = arr \<and> (\<forall>c\<in>set cells. decay g 0 (y, x) c = 0)"
proof (induction cells arbitrary: arr)
  case Nil
  then show ?case by simp
next
  case (Cons c cells)
  obtain cy cx where c: "c = (cy, cx)" by (cases c)
  let ?d = "hypot (real_of_int (\<bar>int x - int cx\<bar> * g)) (real_of_int (\<bar>int y - int cy\<bar> * g))"
  show ?case
  proof (cases "?d > real_of_int 0")
    case True
    have "agg_access_loop y x g 0 pos cells arr = Inr arr'"
      using Cons.prems True unfolding c by (simp add: Let_def)
    then have "arr' = arr \<and> (\<forall>c\<in>set cells. decay g 0 (y, x) c = 0)" by (rule Cons.IH)
    then show ?thesis using decay_far [OF True] unfolding c by simp
  next
    case False
    then have "agg_access_loop y x g 0 pos ((cy, cx) # cells) arr = Inl ZeroDivisionError"
      by (simp add: Let_def truediv_def)
    then show ?thesis using Cons.prems unfolding c by simp
  qed
qed

lemma agg_access_loop_returns:
  assumes "agg_access_loop y x g w pos cells arr = Inr arr'" and "distinct cells"
  shows "arr' = (\<lambda>c. if c \<in> set cells
                      then (if pos then arr c + decay g w (y, x) c else arr c - decay g w (y, x) c)
                      else arr c)"
proof (cases "w = 0")
  case False
  then show ?thesis using assms agg_access_loop_eq [OF False assms(2)] by simp
next
  case True
  then show ?thesis
    using agg_access_loop_zero_returns [OF assms(1) [unfolded True]]
    by (auto simp: fun_eq_iff)
qed

lemma inc_access_returns:
  "inc_access shape y x arr g w = Inr arr' \<Longrightarrow>
   arr' = (\<lambda>c. if c \<in> set (ndindex shape) then arr c + decay g w (y, x) c else arr c)"
  unfolding inc_access_def agg_access_def
  by (drule agg_access_loop_returns [OF _ distinct_ndindex]) (simp cong: if_cong)

lemma decr_access_returns:
  "decr_access shape y x arr g w = Inr arr' \<Longrightarrow>
   arr' = (\<lambda>c. if c \<in> set (ndindex shape) then arr c - decay g w (y, x) c else arr c)"
  unfolding decr_access_def agg_access_def
  by (drule agg_access_loop_returns [OF _ distinct_ndindex]) (simp cong: if_cong)

subsection \<open>Green interface tracker\<close>

lemma green_state_stranded_iff:
  "green_state_stranded zs new old \<longleftrightarrow> (\<exists>c\<in>set zs. new c = 0 \<and> old c > 0)"
  by (induction zs) auto

lemma green_state_nbs_eq:
  assumes "w \<noteq> 0" and "distinct nbs"
  shows "green_state_nbs shape st g w nbs itx acc =
    Inr (\<lambda>c. if c \<in> set nbs \<and> st c = 0 \<and> itx c = 0 then 1 else itx c,
         \<lambda>c. if c \<in> set (ndindex shape)
              then acc c + (\<Sum>nb | nb \<in> set nbs \<and> st nb = 0 \<and> itx nb = 0. decay g w nb c)
              else acc c)"
  using assms(2)
proof (induction nbs arbitrary: itx acc)
  case Nil
  then show ?case by (simp cong: if_cong)
next
  case (Cons nb nbs)
  obtain ny nx where nb: "nb = (ny, nx)" by (cases nb)
  have d: "distinct nbs" and notin: "nb \<notin> set nbs" using Cons.prems by auto
  show ?case
  proof (cases "st nb = 0 \<and> itx nb = 0")
    case False
    then have "{n. n \<in> set (nb # nbs) \<and> st n = 0 \<and> itx n = 0}
             = {n. n \<in> set nbs \<and> st n = 0 \<and> itx n = 0}" by auto
    moreover have "green_state_nbs shape st g w (nb # nbs) itx acc
             = green_state_nbs shape st g w nbs itx acc"
      using False unfolding nb by auto
    ultimately show ?thesis
      using False by (auto simp: Cons.IH [OF d] fun_eq_iff)
  next
    case True
    let ?A = "{n. n \<in> set nbs \<and> st n = 0 \<and> itx n = 0}"
    have A: "{n. n \<in> set nbs \<and> st n = 0 \<and> (itx (nb := 1)) n = 0} = ?A"
      using notin by auto
    have B: "{n. n \<in> set (nb # nbs) \<and> st n = 0 \<and> itx n = 0} = insert nb ?A"
      using True by auto
    have fin: "finite ?A" and nA: "nb \<notin> ?A" using notin by auto
    have step: "green_state_nbs shape st g w (nb # nbs) itx acc
       = green_state_nbs shape st g w nbs (itx (nb := 1))
           (\<lambda>c. if c \<in> set (ndindex shape) then acc c + decay g w nb c else acc c)"
      using True assms(1) unfolding nb by (simp add: inc_access_eq)
    show ?thesis
      unfolding step Cons.IH [OF d] A B
      using fin nA True by (auto simp: fun_eq_iff)
  qed
qed

lemma stranded_filter:
  "green_state_stranded (filter (\<lambda>c. old c - new c > 0) cells) new old
   \<longleftrightarrow> (\<exists>c\<in>set cells. old c - new c > 0 \<and> new c = 0 \<and> old c > 0)"
  by (auto simp: green_state_stranded_iff)

lemma green_state_eq:
  assumes "w \<noteq> 0"
  shows "green_state shape y x st itx old g w =
    (let itx0 = (if itx (y, x) = 1 then itx ((y, x) := 0) else itx);
         nbs = iter_nbs shape y x True;
         itx1 = (\<lambda>c. if c \<in> set nbs \<and> st c = 0 \<and> itx c = 0 then 1 else itx0 c);
         new = (\<lambda>c. if c \<in> set (ndindex shape)
                     then old c - (if itx (y, x) = 1 then decay g w (y, x) c else 0)
                          + (\<Sum>nb | nb \<in> set nbs \<and> st nb = 0 \<and> itx nb = 0. decay g w nb c)
                     else old c)
     in if (\<exists>c\<in>set (ndindex shape). old c - new c > 0 \<and> new c = 0 \<and> old c > 0)
        then Inr (False, itx1 ((y, x) := 2), old)
        else Inr (True, itx1, new))"
proof -
  let ?nbs = "iter_nbs shape y x True"
  define itx0 where "itx0 = (if itx (y, x) = 1 then itx ((y, x) := 0) else itx)"
  define itx1 where "itx1 = (\<lambda>c. if c \<in> set ?nbs \<and> st c = 0 \<and> itx c = 0 then 1 else itx0 c)"
  define new where "new = (\<lambda>c. if c \<in> set (ndindex shape)
                     then old c - (if itx (y, x) = 1 then decay g w (y, x) c else 0)
                          + (\<Sum>nb | nb \<in> set ?nbs \<and> st nb = 0 \<and> itx nb = 0. decay g w nb c)
                     else old c)"
  have ns: "(y, x) \<notin> set ?nbs" by (rule iter_nbs_rook_not_self)
  have S: "{nb. nb \<in> set ?nbs \<and> st nb = 0 \<and> itx0 nb = 0}
         = {nb. nb \<in> set ?nbs \<and> st nb = 0 \<and> itx nb = 0}"
    using ns by (auto simp: itx0_def)
  have I: "(\<lambda>c. if c \<in> set ?nbs \<and> st c = 0 \<and> itx0 c = 0 then 1 else itx0 c) = itx1"
    using ns by (auto simp: fun_eq_iff itx0_def itx1_def)
  have first: "(if itx (y, x) = 1
           then bind (decr_access shape y x old g w)
                  (\<lambda>new_green_acc_arr. Inr (itx ((y, x) := 0), new_green_acc_arr))
           else Inr (itx, old))
      = Inr (itx0, \<lambda>c. if c \<in> set (ndindex shape)
                        then old c - (if itx (y, x) = 1 then decay g w (y, x) c else 0)
                        else old c)"
    by (simp add: decr_access_eq [OF assms] itx0_def cong: if_cong)
  have second: "green_state_nbs shape st g w ?nbs itx0
        (\<lambda>c. if c \<in> set (ndindex shape)
              then old c - (if itx (y, x) = 1 then decay g w (y, x) c else 0)
              else old c) = Inr (itx1, new)"
    unfolding green_state_nbs_eq [OF assms iter_nbs_rook_distinct] S I
    by (simp add: new_def fun_eq_iff)
  have "green_state shape y x st itx old g w =
      (if green_state_stranded (filter (\<lambda>c. old c - new c > 0) (ndindex shape)) new old
       then Inr (False, itx1 ((y, x) := 2), old)
       else Inr (True, itx1, new))"
    unfolding green_state_def first bind_Inr prod.case second Let_def ..
  then show ?thesis
    unfolding stranded_filter Let_def itx1_def itx0_def new_def .
qed

lemma activated_sum_list:
  "(\<Sum>nb | nb \<in> set (iter_nbs shape y x True) \<and> P nb. f nb)
   = sum_list (map f (filter P (iter_nbs shape y x True)))"
proof -
  have "distinct (filter P (iter_nbs shape y x True))"
    by (simp add: iter_nbs_rook_distinct)
  then have "sum_list (map f (filter P (iter_nbs shape y x True)))
           = sum f (set (filter P (iter_nbs shape y x True)))"
    by (rule sum_list_distinct_conv_sum_set)
  then show ?thesis by (simp add: conj_commute)
qed

lemma green_state_eq_list:
  assumes "w \<noteq> 0"
  shows "green_state shape y x st itx old g w =
    (let itx0 = (if itx (y, x) = 1 then itx ((y, x) := 0) else itx);
         nbs = iter_nbs shape y x True;
         itx1 = (\<lambda>c. if c \<in> set nbs \<and> st c = 0 \<and> itx c = 0 then 1 else itx0 c);
         new = (\<lambda>c. if c \<in> set (ndindex shape)
                     then old c - (if itx (y, x) = 1 then decay g w (y, x) c else 0)
                          + sum_list (map (\<lambda>nb. decay g w nb c)
                                        (filter (\<lambda>nb. st nb = 0 \<and> itx nb = 0) nbs))
                     else old c)
     in if (\<exists>c\<in>set (ndindex shape). old c - new c > 0 \<and> new c = 0 \<and> old c > 0)
        then Inr (False, itx1 ((y, x) := 2), old)
        else Inr (True, itx1, new))"
  unfolding Let_def activated_sum_list [symmetric]
  using green_state_eq [OF assms, of shape y x st itx old g, unfolded Let_def] .

lemma green_state_nbs_itx:
  "green_state_nbs shape st g w nbs itx acc = Inr (itx', acc') \<Longrightarrow>
   itx' = (\<lambda>c. if c \<in> set nbs \<and> st c = 0 \<and> itx c = 0 then 1 else itx c)"
proof (induction nbs arbitrary: itx acc)
  case Nil
  then show ?case by simp
next
  case (Cons nb nbs)
  obtain ny nx where nb: "nb = (ny, nx)" by (cases nb)
  show ?case
  proof (cases "st nb = 0 \<and> itx nb = 0")
    case True
    then obtain acc1 where "inc_access shape ny nx acc g w = Inr acc1"
      and "green_state_nbs shape st g w nbs (itx (nb := 1)) acc1 = Inr (itx', acc')"
      using Cons.prems unfolding nb by (auto simp: bind_def split: sum.splits)
    then have "itx' = (\<lambda>c. if c \<in> set nbs \<and> st c = 0 \<and> (itx (nb := 1)) c = 0 then 1
                           else (itx (nb := 1)) c)"
      using Cons.IH by blast
    then show ?thesis using True by (auto simp: fun_eq_iff)
  next
    case False
    then have "green_state_nbs shape st g w nbs itx acc = Inr (itx', acc')"
      using Cons.prems unfolding nb by auto
    then have "itx' = (\<lambda>c. if c \<in> set nbs \<and> st c = 0 \<and> itx c = 0 then 1 else itx c)"
      using Cons.IH by blast
    then show ?thesis using False by (auto simp: fun_eq_iff)
  qed
qed

lemma green_state_itx:
  assumes "green_state shape y x st itx old g w = Inr (ok, itx', acc')"
  shows "itx' (y, x) \<noteq> 1 \<and> (\<forall>c. itx' c = 1 \<longrightarrow> c \<noteq> (y, x) \<and> (itx c = 1 \<or> st c = 0))"
proof -
  let ?nbs = "iter_nbs shape y x True"
  have ns: "(y, x) \<notin> set ?nbs" by (rule iter_nbs_rook_not_self)
  obtain itx0 acc0 where
    first: "(if itx (y, x) = 1
           then bind (decr_access shape y x old g w)
                  (\<lambda>new_green_acc_arr. Inr (itx ((y, x) := 0), new_green_acc_arr))
           else Inr (itx, old)) = Inr (itx0, acc0)"
    using assms unfolding green_state_def by (auto simp: bind_def split: sum.splits)
  have itx0: "itx0 = (if itx (y, x) = 1 then itx ((y, x) := 0) else itx)"
    using first by (auto simp: bind_def split: sum.splits if_splits)
  obtain itx1 acc1 where
    second: "green_state_nbs shape st g w ?nbs itx0 acc0 = Inr (itx1, acc1)"
    using assms unfolding green_state_def first by (auto simp: bind_def split: sum.splits)
  have itx1: "itx1 = (\<lambda>c. if c \<in> set ?nbs \<and> st c = 0 \<and> itx0 c = 0 then 1 else itx0 c)"
    using green_state_nbs_itx [OF second] .
  have "itx' = itx1 \<or> itx' = itx1 ((y, x) := 2)"
    using assms second unfolding green_state_def first
    by (auto simp: Let_def split: if_splits)
  then show ?thesis
    unfolding itx1 itx0 using ns by (auto split: if_splits)
qed

lemma green_state_nbs_error:
  "green_state_nbs shape st g w nbs itx acc = Inl e \<Longrightarrow> e = ZeroDivisionError"
proof (induction nbs arbitrary: itx acc)
  case Nil
  then show ?case by simp
next
  case (Cons nb nbs)
  obtain ny nx where nb: "nb = (ny, nx)" by (cases nb)
  show ?case
    using Cons unfolding nb
    by (auto dest!: bind_error dest: inc_access_error split: if_splits)
qed

lemma green_state_error:
  "green_state shape y x st itx old g w = Inl e \<Longrightarrow> e = ZeroDivisionError"
  unfolding green_state_def Let_def
  by (auto dest!: bind_error dest: decr_access_error green_state_nbs_error split: if_splits)

lemma green_state_nbs_zero_returns:
  assumes "green_state_nbs shape st g 0 nbs itx acc = Inr (itx', acc')" and "distinct nbs"
  shows "acc' = acc
     \<and> (\<forall>nb\<in>set nbs. st nb = 0 \<and> itx nb = 0 \<longrightarrow> (\<forall>c\<in>set (ndindex shape). decay g 0 nb c = 0))"
  using assms
proof (induction nbs arbitrary: itx acc)
  case Nil
  then show ?case by simp
next
  case (Cons nb nbs)
  obtain ny nx where nb: "nb = (ny, nx)" by (cases nb)
  have d: "distinct nbs" and notin: "nb \<notin> set nbs" using Cons.prems(2) by auto
  show ?case
  proof (cases "st nb = 0 \<and> itx nb = 0")
    case False
    then have "green_state_nbs shape st g 0 nbs itx acc = Inr (itx', acc')"
      using Cons.prems(1) unfolding nb by auto
    then show ?thesis using Cons.IH [OF _ d] False by auto
  next
    case True
    then obtain acc1 where inc: "inc_access shape ny nx acc g 0 = Inr acc1"
      and rest: "green_state_nbs shape st g 0 nbs (itx (nb := 1)) acc1 = Inr (itx', acc')"
      using Cons.prems(1) unfolding nb by (auto dest!: bind_success)
    have a: "acc1 = acc" and z: "\<forall>c\<in>set (ndindex shape). decay g 0 nb c = 0"
      using agg_access_loop_zero_returns [OF inc [unfolded inc_access_def agg_access_def]]
      unfolding nb by auto
    have "acc' = acc1
       \<and> (\<forall>n\<in>set nbs. st n = 0 \<and> (itx (nb := 1)) n = 0 \<longrightarrow>
            (\<forall>c\<in>set (ndindex shape). decay g 0 n c = 0))"
      using Cons.IH [OF rest d] .
    then show ?thesis using a z notin by auto
  qed
qed

lemma green_state_nbs_returns:
  assumes "green_state_nbs shape st g w nbs itx acc = Inr (itx', acc')" and "distinct nbs"
  shows "itx' = (\<lambda>c. if c \<in> set nbs \<and> st c = 0 \<and> itx c = 0 then 1 else itx c)
     \<and> acc' = (\<lambda>c. if c \<in> set (ndindex shape)
                     then acc c + (\<Sum>nb | nb \<in> set nbs \<and> st nb = 0 \<and> itx nb = 0. decay g w nb c)
                     else acc c)"
proof (cases "w = 0")
  case False
  then show ?thesis using assms green_state_nbs_eq [OF False assms(2)] by simp
next
  case True
  have z: "acc' = acc
     \<and> (\<forall>nb\<in>set nbs. st nb = 0 \<and> itx nb = 0 \<longrightarrow> (\<forall>c\<in>set (ndindex shape). decay g 0 nb c = 0))"
    using green_state_nbs_zero_returns [OF assms(1) [unfolded True] assms(2)] .
  have "(\<Sum>nb | nb \<in> set nbs \<and> st nb = 0 \<and> itx nb = 0. decay g 0 nb c) = 0"
    if "c \<in> set (ndindex shape)" for c
    using z that by (intro sum.neutral) auto
  then show ?thesis
    using green_state_nbs_itx [OF assms(1)] z unfolding True by (auto simp: fun_eq_iff)
qed

lemma green_state_returns:
  assumes "green_state shape y x st itx old g w = Inr r"
  shows "r =
    (let itx0 = (if itx (y, x) = 1 then itx ((y, x) := 0) else itx);
         nbs = iter_nbs shape y x True;
         itx1 = (\<lambda>c. if c \<in> set nbs \<and> st c = 0 \<and> itx c = 0 then 1 else itx0 c);
         new = (\<lambda>c. if c \<in> set (ndindex shape)
                     then old c - (if itx (y, x) = 1 then decay g w (y, x) c else 0)
                          + (\<Sum>nb | nb \<in> set nbs \<and> st nb = 0 \<and> itx nb = 0. decay g w nb c)
                     else old c)
     in if (\<exists>c\<in>set (ndindex shape). old c - new c > 0 \<and> new c = 0 \<and> old c > 0)
        then (False, itx1 ((y, x) := 2), old)
        else (True, itx1, new))"
proof -
  let ?nbs = "iter_nbs shape y x True"
  define itx0 where "itx0 = (if itx (y, x) = 1 then itx ((y, x) := 0) else itx)"
  define itx1 where "itx1 = (\<lambda>c. if c \<in> set ?nbs \<and> st c = 0 \<and> itx c = 0 then 1 else itx0 c)"
  define mid where "mid = (\<lambda>c. if c \<in> set (ndindex shape)
                        then old c - (if itx (y, x) = 1 then decay g w (y, x) c else 0)
                        else old c)"
  define new where "new = (\<lambda>c. if c \<in> set (ndindex shape)
                     then old c - (if itx (y, x) = 1 then decay g w (y, x) c else 0)
                          + (\<Sum>nb | nb \<in> set ?nbs \<and> st nb = 0 \<and> itx nb = 0. decay g w nb c)
                     else old c)"
  have ns: "(y, x) \<notin> set ?nbs" by (rule iter_nbs_rook_not_self)
  have S: "{nb. nb \<in> set ?nbs \<and> st nb = 0 \<and> itx0 nb = 0}
         = {nb. nb \<in> set ?nbs \<and> st nb = 0 \<and> itx nb = 0}"
    using ns by (auto simp: itx0_def)
  have I: "(\<lambda>c. if c \<in> set ?nbs \<and> st c = 0 \<and> itx0 c = 0 then 1 else itx0 c) = itx1"
    using ns by (auto simp: fun_eq_iff itx0_def itx1_def)
  obtain i0 a0 where
    first: "(if itx (y, x) = 1
           then bind (decr_access shape y x old g w)
                  (\<lambda>new_green_acc_arr. Inr (itx ((y, x) := 0), new_green_acc_arr))
           else Inr (itx, old)) = Inr (i0, a0)"
    using assms unfolding green_state_def by (auto dest!: bind_success)
  have i0: "i0 = itx0" and a0: "a0 = mid"
    using first
    by (auto simp: itx0_def mid_def fun_eq_iff dest!: bind_success dest: decr_access_returns
        split: if_splits)
  obtain i1 a1 where
    second: "green_state_nbs shape st g w ?nbs itx0 mid = Inr (i1, a1)"
    using assms unfolding green_state_def first i0 a0 by (auto dest!: bind_success)
  have i1: "i1 = itx1" and a1: "a1 = new"
    using green_state_nbs_returns [OF second iter_nbs_rook_distinct] unfolding S I
    by (auto simp: new_def mid_def fun_eq_iff)
  have "green_state shape y x st itx old g w =
      (if green_state_stranded (filter (\<lambda>c. old c - new c > 0) (ndindex shape)) new old
       then Inr (False, itx1 ((y, x) := 2), old)
       else Inr (True, itx1, new))"
    unfolding green_state_def first i0 a0 bind_Inr prod.case second i1 a1 Let_def ..
  then have "r =
      (if (\<exists>c\<in>set (ndindex shape). old c - new c > 0 \<and> new c = 0 \<and> old c > 0)
       then (False, itx1 ((y, x) := 2), old)
       else (True, itx1, new))"
    using assms unfolding stranded_filter by (auto split: if_splits)
  then show ?thesis
    unfolding Let_def itx1_def itx0_def new_def .
qed

lemma green_state_total:
  assumes "w \<noteq> 0"
  shows "\<exists>r. green_state shape y x st itx old g w = Inr r"
  using green_state_eq [OF assms, of shape y x st itx old g]
  by (auto simp: Let_def split: if_splits)

text \<open>Evaluation on the strip, where every distance lies along the row.\<close>

lemma hypot_0: "hypot a 0 = \<bar>a\<bar>" by (simp add: hypot_def)

lemma ndindex_strip: "ndindex (Suc 0, 5) = [(0, 0), (0, Suc 0), (0, 2), (0, 3), (0, 4)]"
  unfolding One_nat_def [symmetric] by code_simp

lemma rook_strip:
  "iter_nbs (Suc 0, 5) 0 0 True = [(0, Suc 0)]"
  "iter_nbs (Suc 0, 5) 0 (Suc 0) True = [(0, 2), (0, 0)]"
  "iter_nbs (Suc 0, 5) 0 2 True = [(0, 3), (0, Suc 0)]"
  unfolding One_nat_def [symmetric] by code_simp+

lemma strip_eval:
  "ndindex (1, 5) = [(0, 0), (0, 1), (0, 2), (0, 3), (0, 4)]"
  "iter_nbs (1, 5) 0 0 True = [(0, 1)]"
  "iter_nbs (1, 5) 0 1 True = [(0, 2), (0, 0)]"
  "iter_nbs (1, 5) 0 2 True = [(0, 3), (0, 1)]"
  "iter_nbs (1, 5) 0 3 True = [(0, 4), (0, 2)]"
  "iter_nbs (1, 5) 0 4 True = [(0, 3)]"
  by code_simp+

text \<open>
  C2. For every call of \<open>green_state\<close>: let the working copy be the prior green
  access less the contribution of the cell (if it was an active frontier cell) plus the
  contributions of its Nature rook neighbours that were not yet frontier cells, and let
  the frontier array have the cell deactivated and those neighbours activated. If some
  cell of the grid has a smaller value in the working copy, that value is exactly 0 and
  the prior value was positive, the call returns failure with the prior green access
  unchanged and the cell's frontier status set to 2. Otherwise it returns success with
  the working copy, and then no cell of the grid has gone from a positive value to
  exactly 0. The one other outcome is the division by zero of a call that reaches an
  aggregation with a walking radius of zero.
\<close>

theorem green_state_commit_or_reject:
  "let itx0 = (if itx (y, x) = 1 then itx ((y, x) := 0) else itx);
       nbs = iter_nbs shape y x True;
       itx1 = (\<lambda>c. if c \<in> set nbs \<and> st c = 0 \<and> itx c = 0 then 1 else itx0 c);
       new = (\<lambda>c. if c \<in> set (ndindex shape)
                   then old c - (if itx (y, x) = 1 then decay g w (y, x) c else 0)
                        + sum_list (map (\<lambda>nb. decay g w nb c)
                                      (filter (\<lambda>nb. st nb = 0 \<and> itx nb = 0) nbs))
                   else old c);
       stranded = (\<exists>c\<in>set (ndindex shape). old c - new c > 0 \<and> new c = 0 \<and> old c > 0)
   in (green_state shape y x st itx old g w =
         (if stranded then Inr (False, itx1 ((y, x) := 2), old) else Inr (True, itx1, new))
       \<or> (w = 0 \<and> green_state shape y x st itx old g w = Inl ZeroDivisionError))
      \<and> (\<not> stranded \<longrightarrow> (\<forall>c\<in>set (ndindex shape). old c > 0 \<longrightarrow> new c \<noteq> 0))"
proof (cases "green_state shape y x st itx old g w")
  case (Inl e)
  then have "e = ZeroDivisionError" by (rule green_state_error)
  moreover have "w = 0" using green_state_total [of w shape y x st itx old g] Inl by auto
  ultimately show ?thesis using Inl unfolding Let_def by auto
next
  case (Inr r)
  show ?thesis
    unfolding Let_def activated_sum_list [symmetric]
    using green_state_returns [OF Inr, unfolded Let_def] Inr
    by auto
qed

text \<open>
  On the strip, building the frontier cell next to the centre is rejected with a walking
  radius of 200 m (the centre cell would fall from 1/2 to 0), and committed with 400 m.
\<close>

theorem green_state_commit_or_reject_witness:
  "map_sum id (\<lambda>(success, itx, acc). (success, map itx (ndindex (1, 5)), map acc (ndindex (1, 5))))
     (green_state (1, 5) 0 1 strip_state strip_itx strip_acc 100 200)
   = Inr (False, [0, 2, 1, 0, 0], [1 / 2, 1, 1 / 2, 0, 0])
   \<and> map_sum id (\<lambda>(success, itx, acc). (success, map itx (ndindex (1, 5)), map acc (ndindex (1, 5))))
     (green_state (1, 5) 0 1 strip_state strip_itx strip_acc 100 400)
   = Inr (True, [0, 0, 1, 0, 0], [1 / 2 - 3 / 4 + 1 / 2, 1 - 1 + 3 / 4, 1 / 2 - 3 / 4 + 1, 0 - 1 / 2 + 3 / 4, 0 - 1 / 4 + 1 / 2])"
proof -
  have a: "map_sum id (\<lambda>(success, itx, acc). (success, map itx (ndindex (1, 5)), map acc (ndindex (1, 5))))
     (green_state (1, 5) 0 1 strip_state strip_itx strip_acc 100 200)
   = Inr (False, [0, 2, 1, 0, 0], [1 / 2, 1, 1 / 2, 0, 0])"
    using green_state_commit_or_reject [where w = 200 and itx = strip_itx and y = 0 and x = 1
        and shape = "(1, 5)" and st = strip_state and old = strip_acc and g = 100]
    by (simp add: Let_def ndindex_strip rook_strip strip_state_def strip_itx_def strip_acc_def
        decay_def hypot_0)
  have b: "map_sum id (\<lambda>(success, itx, acc). (success, map itx (ndindex (1, 5)), map acc (ndindex (1, 5))))
     (green_state (1, 5) 0 1 strip_state strip_itx strip_acc 100 400)
   = Inr (True, [0, 0, 1, 0, 0], [1 / 2 - 3 / 4 + 1 / 2, 1 - 1 + 3 / 4, 1 / 2 - 3 / 4 + 1, 0 - 1 / 2 + 3 / 4, 0 - 1 / 4 + 1 / 2])"
    using green_state_commit_or_reject [where w = 400 and itx = strip_itx and y = 0 and x = 1
        and shape = "(1, 5)" and st = strip_state and old = strip_acc and g = 100]
    by (simp add: Let_def ndindex_strip rook_strip strip_state_def strip_itx_def strip_acc_def
        decay_def hypot_0)
  show ?thesis using a b by simp
qed

subsection \<open>Green access as the sum over the active frontier\<close>

lemma frontier_access_sum:
  "frontier_access shape itx g w c
   = (\<Sum>s | s \<in> set (ndindex shape) \<and> itx s = 1. decay g w s c)"
proof -
  have "distinct (filter (\<lambda>s. itx s = 1) (ndindex shape))"
    by (simp add: distinct_ndindex)
  then have "sum_list (map (\<lambda>s. decay g w s c) (filter (\<lambda>s. itx s = 1) (ndindex shape)))
           = sum (\<lambda>s. decay g w s c) (set (filter (\<lambda>s. itx s = 1) (ndindex shape)))"
    by (rule sum_list_distinct_conv_sum_set)
  then show ?thesis by (simp add: frontier_access_def)
qed

lemma frontier_access_none: "frontier_access shape (\<lambda>c. 0) g w c = 0"
  by (simp add: frontier_access_def)

lemma green_state_success_frontier:
  assumes cell: "(y, x) \<in> set (ndindex shape)"
    and old: "\<forall>c\<in>set (ndindex shape). old c = frontier_access shape itx g w c"
    and res: "green_state shape y x st itx old g w = Inr (True, itx', new)"
  shows "\<forall>c\<in>set (ndindex shape). new c = frontier_access shape itx' g w c"
proof
  fix c assume c: "c \<in> set (ndindex shape)"
  let ?nbs = "iter_nbs shape y x True"
  let ?N = "{nb. nb \<in> set ?nbs \<and> st nb = 0 \<and> itx nb = 0}"
  let ?A = "{s. s \<in> set (ndindex shape) \<and> itx s = 1}"
  let ?itx0 = "if itx (y, x) = 1 then itx ((y, x) := 0) else itx"
  let ?itx1 = "\<lambda>c. if c \<in> set ?nbs \<and> st c = 0 \<and> itx c = 0 then 1 else ?itx0 c"
  from green_state_returns [OF res]
  have itx': "itx' = ?itx1"
    and new: "new c = old c - (if itx (y, x) = 1 then decay g w (y, x) c else 0)
                    + (\<Sum>nb\<in>?N. decay g w nb c)"
    using c by (auto simp: Let_def split: if_splits)
  have Nsub: "?N \<subseteq> set (ndindex shape)"
    by (auto simp: iter_nbs_rook_set set_ndindex)
  have finA: "finite ?A" and finN: "finite ?N" by auto
  have ns: "(y, x) \<notin> set ?nbs" by (rule iter_nbs_rook_not_self)
  show "new c = frontier_access shape itx' g w c"
  proof (cases "itx (y, x) = 1")
    case True
    have set_eq: "{s. s \<in> set (ndindex shape) \<and> itx' s = 1} = (?A - {(y, x)}) \<union> ?N"
      unfolding itx' using True Nsub ns by (auto split: if_splits)
    have disj: "(?A - {(y, x)}) \<inter> ?N = {}" by auto
    have yxA: "(y, x) \<in> ?A" using True cell by simp
    have "frontier_access shape itx' g w c
        = (\<Sum>s\<in>?A - {(y, x)}. decay g w s c) + (\<Sum>nb\<in>?N. decay g w nb c)"
      unfolding frontier_access_sum set_eq
      using finA finN disj by (simp add: sum.union_disjoint)
    also have "(\<Sum>s\<in>?A - {(y, x)}. decay g w s c)
        = (\<Sum>s\<in>?A. decay g w s c) - decay g w (y, x) c"
      using finA yxA by (simp add: sum_diff1)
    finally show ?thesis
      using new True old c by (simp add: frontier_access_sum)
  next
    case False
    have set_eq: "{s. s \<in> set (ndindex shape) \<and> itx' s = 1} = ?A \<union> ?N"
      unfolding itx' using False Nsub by (auto split: if_splits)
    have disj: "?A \<inter> ?N = {}" by auto
    have "frontier_access shape itx' g w c
        = (\<Sum>s\<in>?A. decay g w s c) + (\<Sum>nb\<in>?N. decay g w nb c)"
      unfolding frontier_access_sum set_eq
      using finA finN disj by (simp add: sum.union_disjoint)
    then show ?thesis
      using new False old c by (simp add: frontier_access_sum)
  qed
qed

lemma green_state_not_active_returns:
  assumes res: "green_state shape y x st itx old g w = Inr (ok, itx', new)"
    and na: "itx (y, x) \<noteq> 1"
  shows "ok"
proof -
  let ?nbs = "iter_nbs shape y x True"
  define newf where "newf = (\<lambda>c. if c \<in> set (ndindex shape)
                     then old c - (if itx (y, x) = 1 then decay g w (y, x) c else 0)
                          + (\<Sum>nb | nb \<in> set ?nbs \<and> st nb = 0 \<and> itx nb = 0. decay g w nb c)
                     else old c)"
  have ge: "old c \<le> newf c" for c
  proof -
    have "0 \<le> (\<Sum>nb | nb \<in> set ?nbs \<and> st nb = 0 \<and> itx nb = 0. decay g w nb c)"
      by (rule sum_nonneg) (simp add: decay_nonneg_any)
    then show ?thesis using na by (simp add: newf_def)
  qed
  have no: "\<not> (\<exists>c\<in>set (ndindex shape). old c - newf c > 0 \<and> newf c = 0 \<and> old c > 0)"
  proof
    assume "\<exists>c\<in>set (ndindex shape). old c - newf c > 0 \<and> newf c = 0 \<and> old c > 0"
    then obtain c where "old c - newf c > 0" by auto
    then show False using ge [of c] by simp
  qed
  have "(ok, itx', new) =
      (if (\<exists>c\<in>set (ndindex shape). old c - newf c > 0 \<and> newf c = 0 \<and> old c > 0)
       then (False,
             (\<lambda>c. if c \<in> set ?nbs \<and> st c = 0 \<and> itx c = 0 then 1
                   else (if itx (y, x) = 1 then itx ((y, x) := 0) else itx) c) ((y, x) := 2), old)
       else (True,
             \<lambda>c. if c \<in> set ?nbs \<and> st c = 0 \<and> itx c = 0 then 1
                  else (if itx (y, x) = 1 then itx ((y, x) := 0) else itx) c, newf))"
    using green_state_returns [OF res] unfolding Let_def newf_def .
  then show ?thesis unfolding if_not_P [OF no] by simp
qed

lemma compute_green_itx_loop_returns:
  assumes "compute_green_itx_loop shape st g w cells itx acc = Inr (itx', acc')"
    and "set cells \<subseteq> set (ndindex shape)"
    and "\<forall>c\<in>set (ndindex shape). acc c = frontier_access shape itx g w c"
    and "\<forall>c. itx c = 1 \<longrightarrow> st c = 0"
  shows "(\<forall>c\<in>set (ndindex shape). acc' c = frontier_access shape itx' g w c)
       \<and> (\<forall>c. itx' c = 1 \<longrightarrow> st c = 0)"
  using assms
proof (induction cells arbitrary: itx acc)
  case Nil
  then show ?case by simp
next
  case (Cons cell cells)
  obtain y x where cell: "cell = (y, x)" by (cases cell)
  have in_grid: "(y, x) \<in> set (ndindex shape)" and sub': "set cells \<subseteq> set (ndindex shape)"
    using Cons.prems(2) cell by auto
  show ?case
  proof (cases "st (y, x) < 1")
    case True
    then have "compute_green_itx_loop shape st g w cells itx acc = Inr (itx', acc')"
      using Cons.prems(1) unfolding cell by simp
    then show ?thesis using Cons.IH [OF _ sub' Cons.prems(3) Cons.prems(4)] by blast
  next
    case False
    then obtain ok itx1 acc1 where
      gs: "green_state shape y x st itx acc g w = Inr (ok, itx1, acc1)"
      and rest: "compute_green_itx_loop shape st g w cells itx1 acc1 = Inr (itx', acc')"
      using Cons.prems(1) unfolding cell by (auto dest!: bind_success)
    have "itx (y, x) \<noteq> 1" using False Cons.prems(4) by auto
    then have ok using green_state_not_active_returns [OF gs] by simp
    then have gs': "green_state shape y x st itx acc g w = Inr (True, itx1, acc1)"
      using gs by simp
    have inv1: "\<forall>c\<in>set (ndindex shape). acc1 c = frontier_access shape itx1 g w c"
      using green_state_success_frontier [OF in_grid Cons.prems(3) gs'] .
    have nat1: "\<forall>c. itx1 c = 1 \<longrightarrow> st c = 0"
      using green_state_itx [OF gs] Cons.prems(4) by blast
    show ?thesis
      using Cons.IH [OF rest sub' inv1 nat1] .
  qed
qed

lemma compute_green_itx_returns:
  assumes "compute_green_itx shape st g w = Inr (itx, acc)"
  shows "\<forall>c\<in>set (ndindex shape). acc c = frontier_access shape itx g w c"
  using compute_green_itx_loop_returns [OF assms [unfolded compute_green_itx_def]]
  by (simp add: frontier_access_none)

lemma green_state_not_active_succeeds:
  assumes w: "w \<noteq> 0" and na: "itx (y, x) \<noteq> 1"
  shows "\<exists>itx' new. green_state shape y x st itx old g w = Inr (True, itx', new)"
proof -
  let ?nbs = "iter_nbs shape y x True"
  define S where "S = (\<lambda>c. \<Sum>nb | nb \<in> set ?nbs \<and> st nb = 0 \<and> itx nb = 0. decay g w nb c)"
  have nn: "0 \<le> S c" for c
    unfolding S_def by (rule sum_nonneg) (simp add: decay_nonneg [OF w])
  have no: "\<not> (\<exists>c\<in>set (ndindex shape).
      old c - (if c \<in> set (ndindex shape) then old c - 0 + S c else old c) > 0
      \<and> (if c \<in> set (ndindex shape) then old c - 0 + S c else old c) = 0 \<and> old c > 0)"
  proof
    assume "\<exists>c\<in>set (ndindex shape).
      old c - (if c \<in> set (ndindex shape) then old c - 0 + S c else old c) > 0
      \<and> (if c \<in> set (ndindex shape) then old c - 0 + S c else old c) = 0 \<and> old c > 0"
    then obtain c where "c \<in> set (ndindex shape)" and "old c - (old c - 0 + S c) > 0" by auto
    then show False using nn [of c] by simp
  qed
  show ?thesis
    using green_state_eq [OF w, of shape y x st itx old g] na no
    unfolding Let_def S_def by simp
qed

lemma compute_green_itx_loop_ok:
  assumes w: "w \<noteq> 0" and sub: "set cells \<subseteq> set (ndindex shape)"
    and inv: "\<forall>c\<in>set (ndindex shape). acc c = frontier_access shape itx g w c"
    and nat: "\<forall>c. itx c = 1 \<longrightarrow> st c = 0"
  shows "\<exists>itx' acc'. compute_green_itx_loop shape st g w cells itx acc = Inr (itx', acc')
           \<and> (\<forall>c\<in>set (ndindex shape). acc' c = frontier_access shape itx' g w c)
           \<and> (\<forall>c. itx' c = 1 \<longrightarrow> st c = 0)"
  using sub inv nat
proof (induction cells arbitrary: itx acc)
  case Nil
  then show ?case by simp
next
  case (Cons cell cells)
  obtain y x where cell: "cell = (y, x)" by (cases cell)
  have in_grid: "(y, x) \<in> set (ndindex shape)" and sub': "set cells \<subseteq> set (ndindex shape)"
    using Cons.prems(1) cell by auto
  show ?case
  proof (cases "st (y, x) < 1")
    case True
    then show ?thesis
      using Cons.IH [OF sub' Cons.prems(2) Cons.prems(3)] unfolding cell by simp
  next
    case False
    then have "itx (y, x) \<noteq> 1" using Cons.prems(3) by auto
    then obtain itx1 acc1 where
      gs: "green_state shape y x st itx acc g w = Inr (True, itx1, acc1)"
      using green_state_not_active_succeeds [OF w] by blast
    have inv1: "\<forall>c\<in>set (ndindex shape). acc1 c = frontier_access shape itx1 g w c"
      using green_state_success_frontier [OF in_grid Cons.prems(2) gs] .
    have nat1: "\<forall>c. itx1 c = 1 \<longrightarrow> st c = 0"
      using green_state_itx [OF gs] Cons.prems(3) by blast
    show ?thesis
      using Cons.IH [OF sub' inv1 nat1] False gs unfolding cell by simp
  qed
qed

lemma compute_green_itx_ok:
  assumes w: "w \<noteq> 0"
  shows "\<exists>itx acc. compute_green_itx shape st g w = Inr (itx, acc)
           \<and> (\<forall>c\<in>set (ndindex shape). acc c = frontier_access shape itx g w c)
           \<and> (\<forall>c. itx c = 1 \<longrightarrow> st c = 0)"
  unfolding compute_green_itx_def
  by (rule compute_green_itx_loop_ok [OF w]) (simp_all add: frontier_access_none)

lemma green_state_rejected_old:
  assumes "green_state shape y x st itx old g w = Inr (False, itx', new)"
  shows "new = old"
  using assms unfolding green_state_def
  by (auto simp: bind_def Let_def split: sum.splits if_splits prod.splits)

text \<open>
  C1 (as amended). After \<open>compute_green_itx\<close> (the construction of the two green
  arrays) the green access of every cell of the grid is the sum, over the cells marked
  active frontier, of their contributions \<open>1 - distance / walk_radius\<close> within the
  walking radius; a call of \<open>green_state\<close> at a cell of the grid that returns success
  keeps this equality; and a call that returns rejection returns the prior green access
  unchanged (so the equality is not carried over a rejection, after which the frontier
  array differs from the prior one).
\<close>

theorem green_access_frontier_sum:
  "(compute_green_itx shape st g w = Inr (itx, acc) \<longrightarrow>
        (\<forall>c\<in>set (ndindex shape). acc c = frontier_access shape itx g w c))
   \<and> ((y, x) \<in> set (ndindex shape)
        \<and> (\<forall>c\<in>set (ndindex shape). old c = frontier_access shape itx0 g w c)
        \<and> green_state shape y x st itx0 old g w = Inr (True, itx', new) \<longrightarrow>
        (\<forall>c\<in>set (ndindex shape). new c = frontier_access shape itx' g w c))
   \<and> (green_state shape y x st itx0 old g w = Inr (False, itx', new) \<longrightarrow> new = old)"
proof (intro impI conjI)
  { assume "compute_green_itx shape st g w = Inr (itx, acc)"
    then show "\<forall>c\<in>set (ndindex shape). acc c = frontier_access shape itx g w c"
      by (rule compute_green_itx_returns) }
  { assume "(y, x) \<in> set (ndindex shape)
        \<and> (\<forall>c\<in>set (ndindex shape). old c = frontier_access shape itx0 g w c)
        \<and> green_state shape y x st itx0 old g w = Inr (True, itx', new)"
    then show "\<forall>c\<in>set (ndindex shape). new c = frontier_access shape itx' g w c"
      using green_state_success_frontier by blast }
  { assume "green_state shape y x st itx0 old g w = Inr (False, itx', new)"
    then show "new = old" by (rule green_state_rejected_old) }
qed

text \<open>
  On the strip: construction with a radius of 200 m, a committed update with 400 m from
  the recomputed surface, and the rejected update with 200 m.
\<close>

theorem green_access_frontier_sum_witness:
  "(case compute_green_itx (1, 5) strip_state 100 200 of
      Inl e \<Rightarrow> False
    | Inr (itx, acc) \<Rightarrow>
        map acc (ndindex (1, 5)) = map (frontier_access (1, 5) itx 100 200) (ndindex (1, 5)))
   \<and> (case green_state (1, 5) 0 1 strip_state strip_itx
              (frontier_access (1, 5) strip_itx 100 400) 100 400 of
      Inl e \<Rightarrow> False
    | Inr (success, itx, acc) \<Rightarrow>
        success \<and> map acc (ndindex (1, 5)) = map (frontier_access (1, 5) itx 100 400) (ndindex (1, 5)))
   \<and> (case green_state (1, 5) 0 1 strip_state strip_itx strip_acc 100 200 of
      Inl e \<Rightarrow> False
    | Inr (success, itx, acc) \<Rightarrow> \<not> success \<and> acc = strip_acc)"
proof -
  obtain itx acc where c: "compute_green_itx (1, 5) strip_state 100 200 = Inr (itx, acc)"
    using compute_green_itx_ok [where w = 200 and shape = "(1, 5)" and st = strip_state and g = 100]
    by auto
  have a: "\<forall>c\<in>set (ndindex (1, 5)). acc c = frontier_access (1, 5) itx 100 200 c"
    using green_access_frontier_sum [where w = 200 and shape = "(1, 5)" and st = strip_state
        and g = 100 and itx = itx and acc = acc] c by simp
  let ?old = "frontier_access (1, 5) strip_itx 100 400"
  obtain itx1 new1 where
    s: "green_state (1, 5) 0 1 strip_state strip_itx ?old 100 400 = Inr (True, itx1, new1)"
    using green_state_eq_list [where w = 400 and shape = "(1, 5)" and y = 0 and x = 1
        and st = strip_state and itx = strip_itx and old = ?old and g = 100]
    by (simp add: Let_def strip_eval [unfolded One_nat_def] strip_state_def strip_itx_def
        frontier_access_def decay_def hypot_0)
  have b: "\<forall>c\<in>set (ndindex (1, 5)). new1 c = frontier_access (1, 5) itx1 100 400 c"
    using green_access_frontier_sum [where w = 400 and shape = "(1, 5)" and st = strip_state
        and g = 100 and y = 0 and x = 1 and old = ?old and ?itx0.0 = strip_itx
        and itx' = itx1 and new = new1] s
    by (simp add: in_ndindex)
  obtain itx2 new2 where
    r: "green_state (1, 5) 0 1 strip_state strip_itx strip_acc 100 200 = Inr (False, itx2, new2)"
    using green_state_eq_list [where w = 200 and shape = "(1, 5)" and y = 0 and x = 1
        and st = strip_state and itx = strip_itx and old = strip_acc and g = 100]
    by (simp add: Let_def strip_eval [unfolded One_nat_def] strip_state_def strip_itx_def
        strip_acc_def decay_def hypot_0)
  have d: "new2 = strip_acc"
    using green_access_frontier_sum [where w = 200 and shape = "(1, 5)" and st = strip_state
        and g = 100 and y = 0 and x = 1 and old = strip_acc and ?itx0.0 = strip_itx
        and itx' = itx2 and new = new2] r
    by simp
  show ?thesis
    unfolding c s r using a b d by simp
qed

text \<open>
  After construction of the strip with a radius of 200 m, the update at the frontier
  cell \<open>(0, 1)\<close> is rejected. The frontier array is then \<open>[0, 2, 1, 0, 0]\<close>: cell
  \<open>(0, 2)\<close> is marked active, the green access is still \<open>[1/2, 1, 1/2, 0, 0]\<close>, and the
  sum over the active frontier is \<open>[0, 1/2, 1, 1/2, 0]\<close>.
\<close>

theorem green_access_rejected_counterexample:
  "bind (compute_green_itx (1, 5) strip_state 100 200) (\<lambda>(itx, acc).
     bind (green_state (1, 5) 0 1 strip_state itx acc 100 200) (\<lambda>(success, itx', acc').
       Inr (success, map itx' (ndindex (1, 5)), map acc' (ndindex (1, 5)),
            map (frontier_access (1, 5) itx' 100 200) (ndindex (1, 5)))))
   = Inr (False, [0, 2, 1, 0, 0], [1 / 2, 1, 1 / 2, 0, 0], [0, 1 / 2, 1, 1 / 2, 0])"
  by (simp add: compute_green_itx_def green_state_def inc_access_def decr_access_def
      agg_access_def strip_eval [unfolded One_nat_def] truediv_def Let_def strip_state_def
      frontier_access_def decay_def hypot_0)

subsection \<open>Construction\<close>

text \<open>The exceptions that the steps of the constructor can raise.\<close>

lemma compute_centres_access_loop_error:
  "compute_centres_access_loop shape st g w cells cent = Inl e \<Longrightarrow> e = ZeroDivisionError"
proof (induction cells arbitrary: cent)
  case Nil
  then show ?case by simp
next
  case (Cons c cells)
  obtain cy cx where c: "c = (cy, cx)" by (cases c)
  show ?case
    using Cons unfolding c
    by (auto dest!: bind_error dest: inc_access_error split: if_splits)
qed

lemma compute_green_itx_loop_error:
  "compute_green_itx_loop shape st g w cells itx acc = Inl e \<Longrightarrow> e = ZeroDivisionError"
proof (induction cells arbitrary: itx acc)
  case Nil
  then show ?case by simp
next
  case (Cons c cells)
  obtain cy cx where c: "c = (cy, cx)" by (cases c)
  show ?case
    using Cons unfolding c
    by (auto dest!: bind_error dest: green_state_error split: if_splits)
qed

lemma seed_centres_error:
  "seed_centres rowcol shape seeds st = Inl e \<Longrightarrow> e = IndexError"
proof (induction seeds arbitrary: st)
  case Nil
  then show ?case by simp
next
  case (Cons s seeds)
  obtain east north where s: "s = (east, north)" by (cases s)
  show ?case
    using Cons unfolding s
    by (auto simp: np_index_def dest!: bind_error split: if_splits prod.splits)
qed

lemma Land_init_after_check_error:
  assumes "bind (seed_centres tr shape seeds ext) (\<lambda>st.
        bind (compute_green_itx shape st g w) (\<lambda>(itx, green_acc).
        bind (compute_centres_access shape st g w) (\<lambda>cent_acc. Inr (F st itx green_acc cent_acc)))) = Inl e"
  shows "e = IndexError \<or> e = ZeroDivisionError"
  using assms
  by (auto simp: compute_green_itx_def compute_centres_access_def
      dest!: bind_error dest: seed_centres_error compute_green_itx_loop_error
        compute_centres_access_loop_error)

lemma np_random_seed_accepts:
  "0 \<le> seed \<and> seed < 2 ^ 32 \<Longrightarrow> np_random_seed mt seed R = Inr (R \<lparr>np_rng := mt seed\<rparr>)"
  by (simp add: np_random_seed_def)

lemma np_random_seed_refuses:
  "\<not> (0 \<le> seed \<and> seed < 2 ^ 32) \<Longrightarrow> np_random_seed mt seed R = Inl SeedError"
  by (simp add: np_random_seed_def)

text \<open>
  C7 (as amended). For a seed that numpy's generator accepts (from 0 to \<open>2^32 - 1\<close>), the
  constructor fails with the configuration error (and so returns no engine) exactly when
  the area of the extents in square kilometres is smaller than twice \<open>min_green_km2\<close>:
  the check comes before every other step that can fail, and the later steps raise other
  exceptions. For any other seed the constructor fails at its first statement, with the
  \<open>ValueError\<close> of the generator, whatever the area.
\<close>

theorem Land_init_configuration_error:
  "(0 \<le> seed \<and> seed < 2 ^ 32 \<longrightarrow>
      (Land_init mt R g w tr shape ext seeds bp cpn cpi mlp pd df min_green min_long min_short seed
         = Inl ConfigurationError
       \<longleftrightarrow> real_of_int (int (fst shape) * g * int (snd shape) * g) / 1000000
           < real_of_int (2 * min_green)))
   \<and> (\<not> (0 \<le> seed \<and> seed < 2 ^ 32) \<longrightarrow>
      Land_init mt R g w tr shape ext seeds bp cpn cpi mlp pd df min_green min_long min_short seed
         = Inl SeedError)"
proof (intro conjI impI)
  assume ok: "0 \<le> seed \<and> seed < 2 ^ 32"
  have "IndexError \<noteq> ConfigurationError" "ZeroDivisionError \<noteq> ConfigurationError"
    by (simp_all add: ConfigurationError_def)
  then show "Land_init mt R g w tr shape ext seeds bp cpn cpi mlp pd df min_green min_long
       min_short seed = Inl ConfigurationError
     \<longleftrightarrow> real_of_int (int (fst shape) * g * int (snd shape) * g) / 1000000
         < real_of_int (2 * min_green)"
    unfolding Land_init_def Let_def np_random_seed_accepts [OF ok] bind_Inr
    by (auto dest!: Land_init_after_check_error)
next
  assume "\<not> (0 \<le> seed \<and> seed < 2 ^ 32)"
  then show "Land_init mt R g w tr shape ext seeds bp cpn cpi mlp pd df min_green min_long
       min_short seed = Inl SeedError"
    unfolding Land_init_def by (simp add: np_random_seed_refuses)
qed

text \<open>
  A strip of five cells of 100 m is too small for \<open>min_green_km2 = 5\<close> and large enough
  for \<open>min_green_km2 = 0\<close>; the seed \<open>-1\<close> is refused by the generator.
\<close>

theorem Land_init_configuration_error_witness:
  "Land_init zero_mt zero_rng 100 400 id (1, 5) (\<lambda>c. 0) [] 1 0 0 10000
     (1 / 2, 1 / 4, 0) (1, 1 / 2, 1 / 4) 5 500 100 0 = Inl ConfigurationError
   \<and> Land_init zero_mt zero_rng 100 400 id (1, 5) (\<lambda>c. 0) [] 1 0 0 10000
     (1 / 2, 1 / 4, 0) (1, 1 / 2, 1 / 4) 0 500 100 0 \<noteq> Inl ConfigurationError
   \<and> Land_init zero_mt zero_rng 100 400 id (1, 5) (\<lambda>c. 0) [] 1 0 0 10000
     (1 / 2, 1 / 4, 0) (1, 1 / 2, 1 / 4) 5 500 100 (- 1) = Inl SeedError"
proof -
  have a: "Land_init zero_mt zero_rng 100 400 id (1, 5) (\<lambda>c. 0) [] 1 0 0 10000
     (1 / 2, 1 / 4, 0) (1, 1 / 2, 1 / 4) 5 500 100 0 = Inl ConfigurationError"
    using Land_init_configuration_error [where seed = 0 and shape = "(1, 5)" and g = 100
        and min_green = 5 and mt = zero_mt and R = zero_rng and w = 400 and tr = id
        and ext = "\<lambda>c. 0" and seeds = "[]" and bp = 1 and cpn = 0 and cpi = 0 and mlp = 10000
        and pd = "(1 / 2, 1 / 4, 0)" and df = "(1, 1 / 2, 1 / 4)" and min_long = 500
        and min_short = 100]
    by simp
  have b: "Land_init zero_mt zero_rng 100 400 id (1, 5) (\<lambda>c. 0) [] 1 0 0 10000
     (1 / 2, 1 / 4, 0) (1, 1 / 2, 1 / 4) 0 500 100 0 \<noteq> Inl ConfigurationError"
    using Land_init_configuration_error [where seed = 0 and shape = "(1, 5)" and g = 100
        and min_green = 0 and mt = zero_mt and R = zero_rng and w = 400 and tr = id
        and ext = "\<lambda>c. 0" and seeds = "[]" and bp = 1 and cpn = 0 and cpi = 0 and mlp = 10000
        and pd = "(1 / 2, 1 / 4, 0)" and df = "(1, 1 / 2, 1 / 4)" and min_long = 500
        and min_short = 100]
    by simp
  have c: "Land_init zero_mt zero_rng 100 400 id (1, 5) (\<lambda>c. 0) [] 1 0 0 10000
     (1 / 2, 1 / 4, 0) (1, 1 / 2, 1 / 4) 5 500 100 (- 1) = Inl SeedError"
    using Land_init_configuration_error [where seed = "- 1" and shape = "(1, 5)" and g = 100
        and min_green = 5 and mt = zero_mt and R = zero_rng and w = 400 and tr = id
        and ext = "\<lambda>c. 0" and seeds = "[]" and bp = 1 and cpn = 0 and cpi = 0 and mlp = 10000
        and pd = "(1 / 2, 1 / 4, 0)" and df = "(1, 1 / 2, 1 / 4)" and min_long = 500
        and min_short = 100]
    by simp
  show ?thesis using a b c by simp
qed

text \<open>
  With the seed \<open>-1\<close> construction fails although the area is sufficient
  (\<open>min_green_km2 = 0\<close>), and where the area is too small (\<open>min_green_km2 = 5\<close>) it fails
  with the generator's error, not with the configuration error.
\<close>

theorem Land_init_seed_refused_counterexample:
  "Land_init zero_mt zero_rng 100 400 id (1, 5) (\<lambda>c. 0) [] 1 0 0 10000
     (1 / 2, 1 / 4, 0) (1, 1 / 2, 1 / 4) 0 500 100 (- 1)
     = Inl (ValueError ''Seed must be between 0 and 2**32 - 1'')
   \<and> Land_init zero_mt zero_rng 100 400 id (1, 5) (\<lambda>c. 0) [] 1 0 0 10000
     (1 / 2, 1 / 4, 0) (1, 1 / 2, 1 / 4) 5 500 100 (- 1)
     = Inl (ValueError ''Seed must be between 0 and 2**32 - 1'')
   \<and> ValueError ''Seed must be between 0 and 2**32 - 1'' \<noteq> ConfigurationError
   \<and> real_of_int (int (fst ((1, 5) :: nat \<times> nat)) * 100 * int (snd ((1, 5) :: nat \<times> nat)) * 100)
         / 1000000 < real_of_int (2 * 5)
   \<and> \<not> real_of_int (int (fst ((1, 5) :: nat \<times> nat)) * 100 * int (snd ((1, 5) :: nat \<times> nat)) * 100)
         / 1000000 < real_of_int (2 * 0)"
  by (simp add: Land_init_def np_random_seed_def SeedError_def ConfigurationError_def)

lemma compute_green_itx_loop_skip:
  "\<forall>c\<in>set cells. st c < 1 \<Longrightarrow> compute_green_itx_loop shape st g w cells itx acc = Inr (itx, acc)"
  by (induction cells) auto

lemma compute_centres_access_loop_skip:
  "\<forall>c\<in>set cells. st c \<noteq> 2 \<Longrightarrow> compute_centres_access_loop shape st g w cells cent = Inr cent"
  by (induction cells) auto

text \<open>
  C8 (as amended). The constructor does not check the walking radius. With a walking
  radius of zero, every aggregation from a cell of the grid divides by zero, which raises
  \<open>ZeroDivisionError\<close> before anything is written to the surface; and construction
  succeeds, with the zero radius stored in the engine, whenever the generator accepts the
  seed, the area check passes, there are no centre seeds and no cell of the extents is
  Built or Centre, since then no aggregation runs.
\<close>

theorem zero_walk_radius_not_checked:
  "((y, x) \<in> set (ndindex shape) \<longrightarrow>
      agg_access shape y x arr g 0 positive = Inl ZeroDivisionError)
   \<and> (0 \<le> seed \<and> seed < 2 ^ 32
      \<and> \<not> real_of_int (int (fst shape) * g * int (snd shape) * g) / 1000000
          < real_of_int (2 * min_green)
      \<and> (\<forall>c\<in>set (ndindex shape). ext c < 1) \<longrightarrow>
      (\<exists>self R'. Land_init mt R g 0 tr shape ext [] bp cpn cpi mlp pd df
                   min_green min_long min_short seed = Inr (self, R')
               \<and> walk_dist_m self = 0))"
proof (intro conjI impI)
  assume "(y, x) \<in> set (ndindex shape)"
  then show "agg_access shape y x arr g 0 positive = Inl ZeroDivisionError"
    by (rule agg_access_zero)
next
  assume a: "0 \<le> seed \<and> seed < 2 ^ 32
      \<and> \<not> real_of_int (int (fst shape) * g * int (snd shape) * g) / 1000000
          < real_of_int (2 * min_green)
      \<and> (\<forall>c\<in>set (ndindex shape). ext c < 1)"
  then have "\<forall>c\<in>set (ndindex shape). ext c \<noteq> 2" by auto
  then have "compute_centres_access shape ext g 0 = Inr (\<lambda>c. 0)"
    unfolding compute_centres_access_def by (rule compute_centres_access_loop_skip)
  moreover have "compute_green_itx shape ext g 0 = Inr (\<lambda>c. 0, \<lambda>c. 0)"
    unfolding compute_green_itx_def using a by (simp add: compute_green_itx_loop_skip)
  ultimately show "\<exists>self R'. Land_init mt R g 0 tr shape ext [] bp cpn cpi mlp pd df
                   min_green min_long min_short seed = Inr (self, R')
               \<and> walk_dist_m self = 0"
    using a unfolding Land_init_def Let_def by (simp add: np_random_seed_def)
qed

theorem zero_walk_radius_not_checked_witness:
  "agg_access (1, 5) 0 1 (\<lambda>c. 0) 100 0 True = Inl ZeroDivisionError
   \<and> (\<exists>self R'. Land_init zero_mt zero_rng 100 0 id (1, 5) (\<lambda>c. 0) [] 1 0 0 10000
                   (7 / 10, 3 / 10, 0) (1, 1 / 10, 1 / 100) 0 500 100 0 = Inr (self, R')
               \<and> walk_dist_m self = 0)"
  using zero_walk_radius_not_checked [where y = 0 and x = 1 and shape = "(1, 5)"
      and arr = "\<lambda>c. 0" and g = 100 and positive = True and min_green = 0 and ext = "\<lambda>c. 0"
      and mt = zero_mt and R = zero_rng and tr = id and bp = 1 and cpn = 0 and cpi = 0
      and mlp = 10000 and pd = "(7 / 10, 3 / 10, 0)" and df = "(1, 1 / 10, 1 / 100)"
      and min_long = 500 and min_short = 100 and seed = 0]
  by (simp add: in_ndindex)

text \<open>
  An engine with a walking radius of zero: a strip of five Nature cells of 100 m, no
  seeds, \<open>min_green_km2 = 0\<close>.
\<close>

theorem zero_walk_radius_constructed_counterexample:
  "(case Land_init zero_mt zero_rng 100 0 id (1, 5) (\<lambda>c. 0) [] 1 0 0 10000
           (7 / 10, 3 / 10, 0) (1, 1 / 10, 1 / 100) 0 500 100 0 of
      Inl e \<Rightarrow> False
    | Inr (self, R') \<Rightarrow> walk_dist_m self = 0 \<and> arr_shape self = (1, 5))"
  by (simp add: Land_init_def Let_def np_random_seed_def compute_green_itx_def
      compute_centres_access_def compute_green_itx_loop_skip compute_centres_access_loop_skip)

subsection \<open>Growth step\<close>

lemma try_build_outcome:
  assumes res: "try_build y x (self, R, b, k, out) = Inr (self', R', b', k', out')"
    and inv: "frontier_is_nature self"
    and nature: "state_arr self (y, x) = 0"
  shows "frontier_is_nature self' \<and> arr_shape self' = arr_shape self
     \<and> ((state_arr self' = state_arr self \<and> b' = b \<and> k' = k)
        \<or> (state_arr self' = (state_arr self) ((y, x) := 1) \<and> b' = b + 1 \<and> k' = k))"
proof (cases "np_rng R 0 < build_prob self")
  case False
  then show ?thesis
    using res inv by (auto simp: try_build_def rand_def Let_def)
next
  case True
  then obtain success itx acc where
    gs: "green_state (arr_shape self) y x (state_arr self) (green_itx_arr self)
           (green_acc_arr self) (granularity_m self) (walk_dist_m self) = Inr (success, itx, acc)"
    using res by (auto simp: try_build_def rand_def Let_def dest!: bind_success)
  have itx: "itx (y, x) \<noteq> 1"
    "\<And>c. itx c = 1 \<Longrightarrow> c \<noteq> (y, x) \<and> state_arr self c = 0"
    using green_state_itx [OF gs] inv by (auto simp: frontier_is_nature_def)
  show ?thesis
  proof (cases success)
    case True
    then show ?thesis
      using res \<open>np_rng R 0 < build_prob self\<close> gs itx
      by (auto simp: try_build_def rand_def Let_def random_density_def frontier_is_nature_def
          split: prod.splits if_splits)
  next
    case False
    then show ?thesis
      using res \<open>np_rng R 0 < build_prob self\<close> gs itx
      by (auto simp: try_build_def rand_def Let_def frontier_is_nature_def)
  qed
qed

lemma try_centre_outcome:
  assumes res: "try_centre p y x (self, R, b, k, out) = Inr (self', R', b', k', out')"
    and inv: "frontier_is_nature self"
    and nature: "state_arr self (y, x) = 0"
  shows "frontier_is_nature self' \<and> arr_shape self' = arr_shape self
     \<and> ((state_arr self' = state_arr self \<and> b' = b \<and> k' = k)
        \<or> (state_arr self' = (state_arr self) ((y, x) := 2) \<and> b' = b \<and> k' = k + 1))"
proof (cases "np_rng R 0 < p")
  case False
  then show ?thesis
    using res inv by (auto simp: try_centre_def rand_def Let_def)
next
  case True
  then obtain success itx acc where
    gs: "green_state (arr_shape self) y x (state_arr self) (green_itx_arr self)
           (green_acc_arr self) (granularity_m self) (walk_dist_m self) = Inr (success, itx, acc)"
    using res by (auto simp: try_centre_def rand_def Let_def dest!: bind_success)
  have itx: "itx (y, x) \<noteq> 1"
    "\<And>c. itx c = 1 \<Longrightarrow> c \<noteq> (y, x) \<and> state_arr self c = 0"
    using green_state_itx [OF gs] inv by (auto simp: frontier_is_nature_def)
  show ?thesis
  proof (cases success)
    case True
    then show ?thesis
      using res \<open>np_rng R 0 < p\<close> gs itx
      by (auto simp: try_centre_def rand_def Let_def random_density_def frontier_is_nature_def
          dest!: bind_success split: prod.splits if_splits)
  next
    case False
    then show ?thesis
      using res \<open>np_rng R 0 < p\<close> gs itx
      by (auto simp: try_centre_def rand_def Let_def frontier_is_nature_def)
  qed
qed

lemma iter_cell_cases:
  assumes "iter_cell (y, x) s = Inr s'"
  shows "s' = s
     \<or> ((green_itx_arr (fst s) (y, x) = 1 \<or> state_arr (fst s) (y, x) = 0)
        \<and> (try_build y x s = Inr s' \<or> (\<exists>p. try_centre p y x s = Inr s')))"
proof -
  obtain self R b k out where s: "s = (self, R, b, k, out)" by (cases s)
  show ?thesis
    using assms unfolding s iter_cell_def Let_def
    by (auto split: option.splits if_splits prod.splits dest!: bind_success)
qed

lemma iter_cell_outcome:
  assumes res: "iter_cell c (self, R, b, k, out) = Inr (self', R', b', k', out')"
    and inv: "frontier_is_nature self"
  shows "frontier_is_nature self' \<and> arr_shape self' = arr_shape self
     \<and> ((state_arr self' = state_arr self \<and> b' = b \<and> k' = k)
        \<or> (state_arr self c = 0 \<and> state_arr self' = (state_arr self) (c := 1)
           \<and> b' = b + 1 \<and> k' = k)
        \<or> (state_arr self c = 0 \<and> state_arr self' = (state_arr self) (c := 2)
           \<and> b' = b \<and> k' = k + 1))"
proof -
  obtain y x where c: "c = (y, x)" by (cases c)
  from iter_cell_cases [OF res [unfolded c]]
  consider "(self', R', b', k', out') = (self, R, b, k, out)"
    | "state_arr self (y, x) = 0" "try_build y x (self, R, b, k, out) = Inr (self', R', b', k', out')"
    | p where "state_arr self (y, x) = 0"
        "try_centre p y x (self, R, b, k, out) = Inr (self', R', b', k', out')"
    using inv by (auto simp: frontier_is_nature_def)
  then show ?thesis
  proof cases
    case 1
    then show ?thesis using inv by simp
  next
    case 2
    then show ?thesis using try_build_outcome [OF 2(2) inv 2(1)] unfolding c by blast
  next
    case 3
    then show ?thesis using try_centre_outcome [OF 3(2) inv 3(1)] unfolding c by blast
  qed
qed

lemma iter_scan_outcome:
  assumes "distinct cells"
    and "iter_scan cells (self, R, b, k, out) = Inr (self', R', b', k', out')"
    and "frontier_is_nature self"
  shows "frontier_is_nature self' \<and> arr_shape self' = arr_shape self
     \<and> (\<forall>c. c \<notin> set cells \<longrightarrow> state_arr self' c = state_arr self c)
     \<and> (\<forall>c. state_arr self' c \<noteq> state_arr self c \<longrightarrow>
            state_arr self c = 0 \<and> (state_arr self' c = 1 \<or> state_arr self' c = 2))
     \<and> b' = b + int (card {c \<in> set cells. state_arr self c \<noteq> 1 \<and> state_arr self' c = 1})
     \<and> k' = k + int (card {c \<in> set cells. state_arr self c \<noteq> 2 \<and> state_arr self' c = 2})"
  using assms
proof (induction cells arbitrary: self R b k out)
  case Nil
  then show ?case by simp
next
  case (Cons c0 cells)
  obtain self1 R1 b1 k1 out1 where
    cell: "iter_cell c0 (self, R, b, k, out) = Inr (self1, R1, b1, k1, out1)"
    and rest: "iter_scan cells (self1, R1, b1, k1, out1) = Inr (self', R', b', k', out')"
    using Cons.prems(2) by (auto dest!: bind_success)
  have d: "distinct cells" and c0: "c0 \<notin> set cells" using Cons.prems(1) by auto
  note o1 = iter_cell_outcome [OF cell Cons.prems(3)]
  then have inv1: "frontier_is_nature self1" by simp
  note ih = Cons.IH [OF d rest inv1]
  let ?st = "state_arr self" and ?st1 = "state_arr self1" and ?st' = "state_arr self'"
  have keep: "?st' c0 = ?st1 c0" using ih c0 by blast
  have fin: "finite {c \<in> set cells. P c}" for P by simp
  from o1 consider
    (same) "?st1 = ?st" "b1 = b" "k1 = k"
    | (built) "?st c0 = 0" "?st1 = ?st (c0 := 1)" "b1 = b + 1" "k1 = k"
    | (centre) "?st c0 = 0" "?st1 = ?st (c0 := 2)" "b1 = b" "k1 = k + 1"
    by blast
  then show ?case
  proof cases
    case same
    have "{c \<in> set (c0 # cells). ?st c \<noteq> 1 \<and> ?st' c = 1}
        = {c \<in> set cells. ?st1 c \<noteq> 1 \<and> ?st' c = 1}"
      and "{c \<in> set (c0 # cells). ?st c \<noteq> 2 \<and> ?st' c = 2}
        = {c \<in> set cells. ?st1 c \<noteq> 2 \<and> ?st' c = 2}"
      using same keep by auto
    then show ?thesis using ih o1 same by auto
  next
    case built
    have "{c \<in> set (c0 # cells). ?st c \<noteq> 1 \<and> ?st' c = 1}
        = insert c0 {c \<in> set cells. ?st1 c \<noteq> 1 \<and> ?st' c = 1}"
      and "{c \<in> set (c0 # cells). ?st c \<noteq> 2 \<and> ?st' c = 2}
        = {c \<in> set cells. ?st1 c \<noteq> 2 \<and> ?st' c = 2}"
      using built keep c0 by auto
    moreover have "c0 \<notin> {c \<in> set cells. ?st1 c \<noteq> 1 \<and> ?st' c = 1}" using c0 by simp
    ultimately have
      "int (card {c \<in> set (c0 # cells). ?st c \<noteq> 1 \<and> ?st' c = 1})
        = 1 + int (card {c \<in> set cells. ?st1 c \<noteq> 1 \<and> ?st' c = 1})"
      and "{c \<in> set (c0 # cells). ?st c \<noteq> 2 \<and> ?st' c = 2}
        = {c \<in> set cells. ?st1 c \<noteq> 2 \<and> ?st' c = 2}"
      using fin by simp_all
    moreover have "\<forall>c. c \<notin> set (c0 # cells) \<longrightarrow> ?st' c = ?st c"
      using ih built by auto
    moreover have "\<forall>c. ?st' c \<noteq> ?st c \<longrightarrow> ?st c = 0 \<and> (?st' c = 1 \<or> ?st' c = 2)"
      using ih built keep by (metis fun_upd_apply)
    ultimately show ?thesis using ih o1 built by simp
  next
    case centre
    have "{c \<in> set (c0 # cells). ?st c \<noteq> 2 \<and> ?st' c = 2}
        = insert c0 {c \<in> set cells. ?st1 c \<noteq> 2 \<and> ?st' c = 2}"
      and "{c \<in> set (c0 # cells). ?st c \<noteq> 1 \<and> ?st' c = 1}
        = {c \<in> set cells. ?st1 c \<noteq> 1 \<and> ?st' c = 1}"
      using centre keep c0 by auto
    moreover have "c0 \<notin> {c \<in> set cells. ?st1 c \<noteq> 2 \<and> ?st' c = 2}" using c0 by simp
    ultimately have
      "int (card {c \<in> set (c0 # cells). ?st c \<noteq> 2 \<and> ?st' c = 2})
        = 1 + int (card {c \<in> set cells. ?st1 c \<noteq> 2 \<and> ?st' c = 2})"
      and "{c \<in> set (c0 # cells). ?st c \<noteq> 1 \<and> ?st' c = 1}
        = {c \<in> set cells. ?st1 c \<noteq> 1 \<and> ?st' c = 1}"
      using fin by simp_all
    moreover have "\<forall>c. c \<notin> set (c0 # cells) \<longrightarrow> ?st' c = ?st c"
      using ih centre by auto
    moreover have "\<forall>c. ?st' c \<noteq> ?st c \<longrightarrow> ?st c = 0 \<and> (?st' c = 1 \<or> ?st' c = 2)"
      using ih centre keep by (metis fun_upd_apply)
    ultimately show ?thesis using ih o1 centre by simp
  qed
qed

lemma compute_green_itx_loop_nature:
  assumes "compute_green_itx_loop shape st g w cells itx acc = Inr (itx', acc')"
    and "\<forall>c. itx c = 1 \<longrightarrow> st c = 0"
  shows "\<forall>c. itx' c = 1 \<longrightarrow> st c = 0"
  using assms
proof (induction cells arbitrary: itx acc)
  case Nil
  then show ?case by simp
next
  case (Cons cell cells)
  obtain y x where cell: "cell = (y, x)" by (cases cell)
  show ?case
  proof (cases "st (y, x) < 1")
    case True
    then show ?thesis using Cons unfolding cell by simp
  next
    case False
    then obtain ok itx1 acc1 where
      gs: "green_state shape y x st itx acc g w = Inr (ok, itx1, acc1)"
      and rest: "compute_green_itx_loop shape st g w cells itx1 acc1 = Inr (itx', acc')"
      using Cons.prems(1) unfolding cell by (auto dest!: bind_success)
    have "\<forall>c. itx1 c = 1 \<longrightarrow> st c = 0"
      using green_state_itx [OF gs] Cons.prems(2) by blast
    then show ?thesis using Cons.IH [OF rest] by blast
  qed
qed

lemma Land_init_frontier_is_nature:
  assumes "Land_init mt R g w tr shape ext seeds bp cpn cpi mlp pd df min_green min_long min_short seed
           = Inr (self, R')"
  shows "frontier_is_nature self"
proof -
  obtain st itx acc cent where
    "compute_green_itx shape st g w = Inr (itx, acc)"
    and self: "state_arr self = st" "green_itx_arr self = itx"
    using assms unfolding Land_init_def Let_def
    by (auto dest!: bind_success split: if_splits)
  then have "\<forall>c. itx c = 1 \<longrightarrow> st c = 0"
    unfolding compute_green_itx_def
    using compute_green_itx_loop_nature by fastforce
  then show ?thesis by (simp add: frontier_is_nature_def self)
qed

lemma iter_land_isobenefit_outcome:
  assumes res: "iter_land_isobenefit areas_of self R = Inr (self', R', logged, out, ret)"
    and inv: "frontier_is_nature self"
  shows "frontier_is_nature self' \<and> arr_shape self' = arr_shape self
     \<and> (\<forall>c. c \<notin> set (ndindex (arr_shape self)) \<longrightarrow> state_arr self' c = state_arr self c)
     \<and> (\<forall>c. state_arr self' c \<noteq> state_arr self c \<longrightarrow>
            state_arr self c = 0 \<and> (state_arr self' c = 1 \<or> state_arr self' c = 2))
     \<and> logged = [(''added blocks: '',
                int (card {c \<in> set (ndindex (arr_shape self)).
                             state_arr self c \<noteq> 1 \<and> state_arr self' c = 1})),
               (''added centralities: '',
                int (card {c \<in> set (ndindex (arr_shape self)).
                             state_arr self c \<noteq> 2 \<and> state_arr self' c = 2}))]
     \<and> ret = None"
proof -
  let ?self2 = "self \<lparr>iters := iters self + 1,
                       areas_arr := Some (areas_of (state_arr (self \<lparr>iters := iters self + 1\<rparr>)))\<rparr>"
  obtain b k where
    scan: "iter_scan (ndindex (arr_shape ?self2)) (?self2, R, 0, 0, []) = Inr (self', R', b, k, out)"
    and logged: "logged = [(''added blocks: '', b), (''added centralities: '', k)]" and ret: "ret = None"
    using res unfolding iter_land_isobenefit_def Let_def
    by (auto dest!: bind_success)
  have inv2: "frontier_is_nature ?self2"
    using inv by (simp add: frontier_is_nature_def)
  show ?thesis
    using iter_scan_outcome [OF distinct_ndindex scan inv2] logged ret by simp
qed

lemma run_steps_outcome:
  assumes "run_steps areas_of n self R = Inr (self', R')" and "frontier_is_nature self"
  shows "frontier_is_nature self'
     \<and> (\<forall>c. state_arr self' c \<noteq> state_arr self c \<longrightarrow>
            state_arr self c = 0 \<and> (state_arr self' c = 1 \<or> state_arr self' c = 2))"
  using assms
proof (induction n arbitrary: self R)
  case 0
  then show ?case by simp
next
  case (Suc n)
  obtain self1 R1 logged out ret where
    step: "iter_land_isobenefit areas_of self R = Inr (self1, R1, logged, out, ret)"
    and rest: "run_steps areas_of n self1 R1 = Inr (self', R')"
    using Suc.prems(1) by (auto dest!: bind_success)
  note o = iter_land_isobenefit_outcome [OF step Suc.prems(2)]
  then have "frontier_is_nature self1" by simp
  note ih = Suc.IH [OF rest this]
  show ?case
  proof (intro conjI allI impI)
    show "frontier_is_nature self'" using ih by simp
  next
    fix c assume ne: "state_arr self' c \<noteq> state_arr self c"
    show "state_arr self c = 0"
    proof (cases "state_arr self1 c = state_arr self c")
      case True
      then show ?thesis using ih ne by metis
    next
      case False
      then show ?thesis using o by metis
    qed
    show "state_arr self' c = 1 \<or> state_arr self' c = 2"
    proof (cases "state_arr self' c = state_arr self1 c")
      case True
      then show ?thesis using o ne by metis
    next
      case False
      then show ?thesis using ih by metis
    qed
  qed
qed

text \<open>
  C10. For an engine built by the constructor and driven through any number of steps,
  every further run of steps (one step in particular) leaves each cell that is not
  Nature with its class, and a cell whose class changes was Nature and becomes Built or
  Centre. So a step only turns Nature into Built or Centre, and no cell ever leaves the
  Built, Centre or OutOfBounds class.
\<close>

theorem only_nature_is_developed:
  assumes "Land_init mt R g w tr shape ext seeds bp cpn cpi mlp pd df min_green min_long min_short seed
             = Inr (self0, R0)"
    and "run_steps areas_of m self0 R0 = Inr (self1, R1)"
    and "run_steps areas_of n self1 R1 = Inr (self2, R2)"
  shows "(state_arr self1 c \<noteq> 0 \<longrightarrow> state_arr self2 c = state_arr self1 c)
     \<and> (state_arr self2 c \<noteq> state_arr self1 c \<longrightarrow>
          state_arr self1 c = 0 \<and> (state_arr self2 c = 1 \<or> state_arr self2 c = 2))"
proof -
  have "frontier_is_nature self0" using assms(1) by (rule Land_init_frontier_is_nature)
  then have "frontier_is_nature self1" using run_steps_outcome [OF assms(2)] by simp
  then show ?thesis using run_steps_outcome [OF assms(3)] by metis
qed

text \<open>
  C3 (as amended). A growth step of an engine built by the constructor (and driven
  through any number of steps before) returns \<open>None\<close>. It logs the two counts:
  \<open>added_blocks\<close> is the number of cells of the grid that are Built after the step and
  were not before, \<open>added_centrality\<close> the number that are Centre after the step and
  were not before.
\<close>

theorem growth_step_logs_counts:
  assumes "Land_init mt R g w tr shape ext seeds bp cpn cpi mlp pd df min_green min_long min_short seed
             = Inr (self0, R0)"
    and "run_steps areas_of m self0 R0 = Inr (self1, R1)"
    and "iter_land_isobenefit areas_of self1 R1 = Inr (self2, R2, logged, out, ret)"
  shows "ret = None
     \<and> logged = [(''added blocks: '',
                int (card {c \<in> set (ndindex (arr_shape self1)).
                             state_arr self1 c \<noteq> 1 \<and> state_arr self2 c = 1})),
               (''added centralities: '',
                int (card {c \<in> set (ndindex (arr_shape self1)).
                             state_arr self1 c \<noteq> 2 \<and> state_arr self2 c = 2}))]"
proof -
  have "frontier_is_nature self0" using assms(1) by (rule Land_init_frontier_is_nature)
  then have "frontier_is_nature self1" using run_steps_outcome [OF assms(2)] by simp
  then show ?thesis using iter_land_isobenefit_outcome [OF assms(3)] by simp
qed

text \<open>
  The running example: the strip with its centre at the left end, 100 m cells, a walking
  radius of 400 m, \<open>build_prob = 1\<close>, both centrality probabilities 0, no minimum green
  area or span, and generators that return zeros. In one step the frontier cell \<open>(0, 1)\<close>
  is built, then the cell \<open>(0, 2)\<close> that it activates; the update at \<open>(0, 3)\<close> is
  rejected, since the centre cell would fall from 1/4 to 0.
\<close>

lemma green_rays_no_minimum:
  assumes "0 < g"
  shows "green_rays shape arr y x g 0 0 = Inr True"
proof -
  have "g \<noteq> 0" using assms by simp
  then show ?thesis
    by (simp add: green_rays_rule Let_def)
qed

lemmas step_eval_simps =
  Land_init_def compute_green_itx_def compute_centres_access_def green_state_def
  inc_access_def decr_access_def agg_access_def strip_eval [unfolded One_nat_def] truediv_def
  Let_def strip_state_def hypot_0 iter_land_isobenefit_def iter_cell_def try_build_def
  try_centre_def rand_def random_density_def green_rays_no_minimum case_prod_beta
  zero_mt_def zero_rng_def other_rng_def np_random_seed_def

lemma card_filter_distinct:
  "distinct xs \<Longrightarrow> card {c \<in> set xs. P c} = length (filter P xs)"
  by (metis distinct_card distinct_filter set_filter)

lemma strip_step:
  "\<exists>self0 R0 self1 R1 logged out ret.
     Land_init zero_mt zero_rng 100 400 id (1, 5) strip_state [] 1 0 0 10000
       (1 / 2, 1 / 4, 0) (1, 1 / 2, 1 / 4) 0 0 0 0 = Inr (self0, R0)
     \<and> iter_land_isobenefit (\<lambda>st c. 0) self0 R0 = Inr (self1, R1, logged, out, ret)
     \<and> arr_shape self0 = (1, 5)
     \<and> map (state_arr self0) (ndindex (1, 5)) = [2, 0, 0, 0, 0]
     \<and> map (state_arr self1) (ndindex (1, 5)) = [2, 1, 1, 0, 0]"
proof -
  have "bind (Land_init zero_mt zero_rng 100 400 id (1, 5) strip_state [] 1 0 0 10000
           (1 / 2, 1 / 4, 0) (1, 1 / 2, 1 / 4) 0 0 0 0) (\<lambda>(self, R).
     bind (iter_land_isobenefit (\<lambda>st c. 0) self R) (\<lambda>(self', R', logged, out, ret).
       Inr (arr_shape self, map (state_arr self) (ndindex (1, 5)),
            map (state_arr self') (ndindex (1, 5)))))
     = Inr ((1, 5), [2, 0, 0, 0, 0], [2, 1, 1, 0, 0])"
    by (simp add: step_eval_simps)
  then show ?thesis
    by (fastforce dest!: bind_success)
qed

theorem only_nature_is_developed_witness:
  "\<exists>self0 R0 self1 R1.
     Land_init zero_mt zero_rng 100 400 id (1, 5) strip_state [] 1 0 0 10000
       (1 / 2, 1 / 4, 0) (1, 1 / 2, 1 / 4) 0 0 0 0 = Inr (self0, R0)
     \<and> run_steps (\<lambda>st c. 0) 0 self0 R0 = Inr (self0, R0)
     \<and> run_steps (\<lambda>st c. 0) 1 self0 R0 = Inr (self1, R1)
     \<and> state_arr self0 (0, 0) = 2 \<and> state_arr self1 (0, 0) = 2
     \<and> state_arr self0 (0, 1) = 0 \<and> state_arr self1 (0, 1) = 1"
proof -
  obtain self0 R0 self1 R1 logged out ret where
    init: "Land_init zero_mt zero_rng 100 400 id (1, 5) strip_state [] 1 0 0 10000
       (1 / 2, 1 / 4, 0) (1, 1 / 2, 1 / 4) 0 0 0 0 = Inr (self0, R0)"
    and step: "iter_land_isobenefit (\<lambda>st c. 0) self0 R0 = Inr (self1, R1, logged, out, ret)"
    and st0: "map (state_arr self0) (ndindex (1, 5)) = [2, 0, 0, 0, 0]"
    and st1: "map (state_arr self1) (ndindex (1, 5)) = [2, 1, 1, 0, 0]"
    using strip_step by (elim exE conjE) (rule that)
  have r0: "run_steps (\<lambda>st c. 0) 0 self0 R0 = Inr (self0, R0)" by simp
  have r1: "run_steps (\<lambda>st c. 0) 1 self0 R0 = Inr (self1, R1)" by (simp add: step)
  have vals: "state_arr self0 (0, 0) = 2" "state_arr self0 (0, 1) = 0" "state_arr self1 (0, 1) = 1"
    using st0 st1 unfolding strip_eval by simp_all
  have "state_arr self1 (0, 0) = state_arr self0 (0, 0)"
    using only_nature_is_developed [OF init r0 r1, of "(0, 0)"] vals by simp
  then show ?thesis using init r0 r1 vals by auto
qed

theorem growth_step_logs_counts_witness:
  "\<exists>self0 R0 self1 R1 logged out ret.
     Land_init zero_mt zero_rng 100 400 id (1, 5) strip_state [] 1 0 0 10000
       (1 / 2, 1 / 4, 0) (1, 1 / 2, 1 / 4) 0 0 0 0 = Inr (self0, R0)
     \<and> run_steps (\<lambda>st c. 0) 0 self0 R0 = Inr (self0, R0)
     \<and> iter_land_isobenefit (\<lambda>st c. 0) self0 R0 = Inr (self1, R1, logged, out, ret)
     \<and> ret = None
     \<and> logged = [(''added blocks: '', 2), (''added centralities: '', 0)]"
proof -
  obtain self0 R0 self1 R1 logged out ret where
    init: "Land_init zero_mt zero_rng 100 400 id (1, 5) strip_state [] 1 0 0 10000
       (1 / 2, 1 / 4, 0) (1, 1 / 2, 1 / 4) 0 0 0 0 = Inr (self0, R0)"
    and step: "iter_land_isobenefit (\<lambda>st c. 0) self0 R0 = Inr (self1, R1, logged, out, ret)"
    and shape: "arr_shape self0 = (1, 5)"
    and st0: "map (state_arr self0) (ndindex (1, 5)) = [2, 0, 0, 0, 0]"
    and st1: "map (state_arr self1) (ndindex (1, 5)) = [2, 1, 1, 0, 0]"
    using strip_step by (elim exE conjE) (rule that)
  have r0: "run_steps (\<lambda>st c. 0) 0 self0 R0 = Inr (self0, R0)" by simp
  have v: "state_arr self0 (0, 0) = 2" "state_arr self0 (0, 1) = 0" "state_arr self0 (0, 2) = 0"
    "state_arr self0 (0, 3) = 0" "state_arr self0 (0, 4) = 0"
    "state_arr self1 (0, 0) = 2" "state_arr self1 (0, 1) = 1" "state_arr self1 (0, 2) = 1"
    "state_arr self1 (0, 3) = 0" "state_arr self1 (0, 4) = 0"
    using st0 st1 unfolding strip_eval by simp_all
  have b: "card {c \<in> set (ndindex (1, 5)). state_arr self0 c \<noteq> 1 \<and> state_arr self1 c = 1} = 2"
    unfolding card_filter_distinct [OF distinct_ndindex]
    unfolding strip_eval using v by simp
  have k: "card {c \<in> set (ndindex (1, 5)). state_arr self0 c \<noteq> 2 \<and> state_arr self1 c = 2} = 0"
    unfolding card_filter_distinct [OF distinct_ndindex]
    unfolding strip_eval using v by simp
  have "ret = None \<and> logged = [(''added blocks: '', 2), (''added centralities: '', 0)]"
    using growth_step_logs_counts [OF init r0 step] unfolding shape b k by simp
  then show ?thesis using init r0 step by blast
qed

text \<open>
  The value returned by the step of the running example is \<open>None\<close>, not the pair
  \<open>(2, 0)\<close> that it logs.
\<close>

theorem growth_step_returns_none_counterexample:
  "bind (Land_init zero_mt zero_rng 100 400 id (1, 5) strip_state [] 1 0 0 10000
           (1 / 2, 1 / 4, 0) (1, 1 / 2, 1 / 4) 0 0 0 0) (\<lambda>(self, R).
   bind (iter_land_isobenefit (\<lambda>st c. 0) self R) (\<lambda>(self', R', logged, out, ret).
     Inr (logged, ret, map (state_arr self') (ndindex (1, 5)))))
   = Inr ([(''added blocks: '', 2), (''added centralities: '', 0)], None, [2, 1, 1, 0, 0])"
  by (simp add: step_eval_simps)

subsection \<open>Reproducibility\<close>

text \<open>
  C6. Two runs from the same seed and the same construction inputs need not agree.
  First, the density tier is drawn from numba's generator, which the seed does not
  reach: the same construction and step with numba's generator in two different states
  give the same classes and the densities 1 and 1/4 at the built cells. Second, the
  seeded generator is the one global generator of numpy: of two engines constructed with
  the same seed in one process and then stepped one after the other, the second draws
  the numbers that follow those the first has consumed; with \<open>build_prob = 1/2\<close> and a
  generator whose first number is 0 and whose later numbers are 3/4, the first engine
  builds cell \<open>(0, 1)\<close> and the second builds nothing.
\<close>

theorem same_seed_not_deterministic:
  "bind (Land_init zero_mt zero_rng 100 400 id (1, 5) strip_state [] 1 0 0 10000
           (1 / 2, 1 / 4, 0) (1, 1 / 2, 1 / 4) 0 0 0 0) (\<lambda>(self, R).
   bind (run_steps (\<lambda>st c. 0) 1 self R) (\<lambda>(self', R').
     Inr (map (state_arr self') (ndindex (1, 5)), map (density_arr self') (ndindex (1, 5)))))
   = Inr ([2, 1, 1, 0, 0], [0, 1, 1, 0, 0])
   \<and> bind (Land_init zero_mt other_rng 100 400 id (1, 5) strip_state [] 1 0 0 10000
           (1 / 2, 1 / 4, 0) (1, 1 / 2, 1 / 4) 0 0 0 0) (\<lambda>(self, R).
   bind (run_steps (\<lambda>st c. 0) 1 self R) (\<lambda>(self', R').
     Inr (map (state_arr self') (ndindex (1, 5)), map (density_arr self') (ndindex (1, 5)))))
   = Inr ([2, 1, 1, 0, 0], [0, 1 / 4, 1 / 4, 0, 0])
   \<and> bind (Land_init first_zero_mt zero_rng 100 400 id (1, 5) strip_state [] (1 / 2) 0 0 10000
           (1 / 2, 1 / 4, 0) (1, 1 / 2, 1 / 4) 0 0 0 0) (\<lambda>(self_a, R1).
   bind (Land_init first_zero_mt R1 100 400 id (1, 5) strip_state [] (1 / 2) 0 0 10000
           (1 / 2, 1 / 4, 0) (1, 1 / 2, 1 / 4) 0 0 0 0) (\<lambda>(self_b, R2).
   bind (run_steps (\<lambda>st c. 0) 1 self_a R2) (\<lambda>(self_a', R3).
   bind (run_steps (\<lambda>st c. 0) 1 self_b R3) (\<lambda>(self_b', R4).
     Inr (map (state_arr self_a') (ndindex (1, 5)), map (state_arr self_b') (ndindex (1, 5)))))))
   = Inr ([2, 1, 0, 0, 0], [2, 0, 0, 0, 0])"
  by (simp add: step_eval_simps first_zero_mt_def)

end
